theory Spec2Isabelle
  imports Complex_Main
begin

section \<open>JavaScript values used by the workflow engine\<close>

text \<open>
  The engine (class \<open>WorkflowEngine\<close>) is JavaScript. A field that may be
  \<open>undefined\<close> is an \<open>option\<close>; a string is truthy when it is defined and not
  empty, and \<open>a || b\<close> yields \<open>a\<close> when \<open>a\<close> is truthy and \<open>b\<close> otherwise.
  Numbers that carry a confidence are rationals (the decimal the source writes), token counts
  are naturals.
\<close>

definition truthy :: "string option \<Rightarrow> bool" where
  "truthy s = (case s of None \<Rightarrow> False | Some x \<Rightarrow> x \<noteq> [])"

definition js_or :: "string option \<Rightarrow> string option \<Rightarrow> string option" where
  "js_or a b = (if truthy a then a else b)"

definition or_else :: "string option \<Rightarrow> string \<Rightarrow> string" where
  \<comment> \<open>\<open>a || 'literal'\<close>\<close>
  "or_else a d = (case a of None \<Rightarrow> d | Some x \<Rightarrow> if x = [] then d else x)"

definition num_or :: "rat option \<Rightarrow> rat \<Rightarrow> rat" where
  \<comment> \<open>\<open>x || d\<close> on numbers: \<open>undefined\<close> and \<open>0\<close> are falsy\<close>
  "num_or a d = (case a of None \<Rightarrow> d | Some x \<Rightarrow> if x = 0 then d else x)"

definition conf_ge :: "rat option \<Rightarrow> rat \<Rightarrow> bool" where
  \<comment> \<open>\<open>x >= c\<close>: a comparison with \<open>undefined\<close> is false\<close>
  "conf_ge a c = (case a of None \<Rightarrow> False | Some x \<Rightarrow> x \<ge> c)"

definition conf_lt :: "rat option \<Rightarrow> rat \<Rightarrow> bool" where
  \<comment> \<open>\<open>x < c\<close>: a comparison with \<open>undefined\<close> is false\<close>
  "conf_lt a c = (case a of None \<Rightarrow> False | Some x \<Rightarrow> x < c)"

definition is_true :: "bool option \<Rightarrow> bool" where
  \<comment> \<open>truthiness of an optional boolean\<close>
  "is_true b = (b = Some True)"


section \<open>Graph model\<close>

record classify_route =
  cr_type :: "string option"
  cr_next :: "string option"

record intent_route =
  ir_intent :: "string option"
  ir_next :: "string option"

text \<open>
  The \<open>config\<close> object of a node. Only the keys the engine itself reads are kept; the keys
  that are handed on to an external service unread (\<open>system_prompt\<close>, \<open>model\<close>,
  \<open>temperature\<close>, \<open>limit\<close>, \<open>category\<close>) are part of the node the service sees.
\<close>

record config =
  cfg_next :: "string option"
  next_high_confidence :: "string option"
  next_low_confidence :: "string option"
  next_found :: "string option"
  next_not_found :: "string option"
  fallback :: "string option"
  classify :: "classify_route list option"
  routes :: "intent_route list option"
  operation :: "string option"
  template :: "string option"
  top_n :: "int option"
  max_tokens :: "nat option"
  include_context :: bool
  cfg_language :: "string option"

definition empty_config :: config where
  \<comment> \<open>the object \<open>{}\<close>\<close>
  "empty_config = \<lparr>cfg_next = None, next_high_confidence = None, next_low_confidence = None,
     next_found = None, next_not_found = None, fallback = None, classify = None, routes = None,
     operation = None, template = None, top_n = None, max_tokens = None,
     include_context = False, cfg_language = None\<rparr>"

record node =
  n_id :: string
  n_name :: string
  n_type :: string
  n_config :: "config option"

text \<open>
  The constructor indexes the node list of \<open>workflow.json\<close> by id with
  \<open>this.nodes.set(node.id, node)\<close>, so a later node replaces an earlier one of the same id.
  The file itself is not part of the sources: the node list is a parameter.
\<close>

definition nodes_get :: "node list \<Rightarrow> string \<Rightarrow> node option" where
  "nodes_get ns k = map_of (rev (map (\<lambda>n. (n_id n, n)) ns)) k"


section \<open>Step results and the execution context\<close>

record product =
  p_id :: string
  p_name :: string
  p_brand :: "string option"
  p_model :: "string option"
  relevance_score :: "rat option"
  p_reasoning :: "string option"

text \<open>The object \<open>ImageProcessor.processImage\<close> returns.\<close>

record analysis =
  a_success :: bool
  a_error :: "string option"
  a_tokensUsed :: nat
  a_product_name :: "string option"
  a_category :: "string option"
  a_brand :: "string option"

text \<open>
  The \<open>data\<close> object of a step result, with the keys that some part of the engine or of
  its caller reads back. Keys that are only written (\<open>metadata\<close>, \<open>messageType\<close>,
  \<open>route\<close>, \<open>entities\<close>, \<open>product\<close>, \<open>price\<close>, \<open>status\<close>, \<open>logged\<close>,
  \<open>escalated\<close>, \<open>text\<close>, and the copies of the analysis fields) are left out.
\<close>

record data =
  d_message :: "string option"
  d_intent :: "string option"
  d_confidence :: "rat option"
  d_requires_product_search :: "bool option"
  d_requires_agent_escalation :: "bool option"
  d_products :: "product list option"
  d_fallbackProducts :: "product list option"
  d_reasoning :: "string option"
  d_formatted :: "string option"
  d_optimized :: "string option"
  d_response :: "string option"
  d_finalResponse :: "string option"
  d_language :: "string option"
  d_analysis :: "analysis option"
  d_error :: "string option"
  d_questions :: "string option"

definition empty_data :: data where
  "empty_data = \<lparr>d_message = None, d_intent = None, d_confidence = None,
     d_requires_product_search = None, d_requires_agent_escalation = None, d_products = None,
     d_fallbackProducts = None, d_reasoning = None, d_formatted = None, d_optimized = None,
     d_response = None, d_finalResponse = None, d_language = None, d_analysis = None,
     d_error = None, d_questions = None\<rparr>"

record step_result =
  r_data :: "data option"
  r_next :: "string option"
  r_confidence :: "rat option"
  r_found :: "bool option"
  r_tokensUsed :: nat
  r_error :: "string option"

definition result_of :: "data \<Rightarrow> step_result" where
  \<comment> \<open>\<open>{ data, tokensUsed: 0 }\<close>\<close>
  "result_of d = \<lparr>r_data = Some d, r_next = None, r_confidence = None, r_found = None,
     r_tokensUsed = 0, r_error = None\<rparr>"

record step_trace =
  st_node :: string
  st_nodeName :: string
  st_hasData :: bool
  st_hasError :: bool
  st_confidence :: "rat option"
  st_found :: "bool option"
  st_tokensUsed :: nat

record metadata =
  message_type :: "string option"
  media_url :: "string option"
  image_url :: "string option"
  voice_url :: "string option"
  audio_url :: "string option"

text \<open>
  The execution context: the caller's fields (\<open>...context\<close>) followed by the fields
  \<open>execute\<close> sets. Wall-clock fields (\<open>startTime\<close>, \<open>responseTime\<close>) and
  \<open>conversationHistory\<close>, which is reset and never read, are left out.
\<close>

record execution_context =
  user_message :: "string option"
  metadata :: "metadata option"
  language :: "string option"
  messageType :: "string option"
  transcribed :: bool
  lastResult :: "step_result option"
  tokensUsed :: nat
  workflowSteps :: "step_trace list"
  errors :: "string list"
  allResults :: "step_result list"
  finalResponse :: "string option"
  visitedNodes :: "string set"
  maxIterations :: nat
  iterationCount :: nat

definition last_data :: "execution_context \<Rightarrow> data option" where
  \<comment> \<open>\<open>context.lastResult?.data\<close>\<close>
  "last_data ctx = (case lastResult ctx of None \<Rightarrow> None | Some r \<Rightarrow> r_data r)"

definition last_field :: "execution_context \<Rightarrow> (data \<Rightarrow> 'a option) \<Rightarrow> 'a option" where
  \<comment> \<open>\<open>context.lastResult?.data?.field\<close>\<close>
  "last_field ctx f = (case last_data ctx of None \<Rightarrow> None | Some d \<Rightarrow> f d)"


section \<open>Next-node resolution\<close>

definition config_of :: "node \<Rightarrow> config" where
  \<comment> \<open>\<open>currentNode.config || {}\<close>\<close>
  "config_of n = (case n_config n of None \<Rightarrow> empty_config | Some c \<Rightarrow> c)"

definition route_to :: "node list \<Rightarrow> bool \<Rightarrow> string option \<Rightarrow> node option" where
  \<comment> \<open>one priority: \<open>if (ref && cond) { n = this.nodes.get(ref); if (n) return n; }\<close>\<close>
  "route_to ns cond ref =
     (case ref of None \<Rightarrow> None
      | Some k \<Rightarrow> if k \<noteq> [] \<and> cond then nodes_get ns k else None)"

definition getNextNode :: "node list \<Rightarrow> node \<Rightarrow> step_result \<Rightarrow> node option" where
  "getNextNode ns currentNode result =
    (let config = config_of currentNode in
     case route_to ns True (r_next result) of Some n \<Rightarrow> Some n | None \<Rightarrow>
     (case route_to ns True (cfg_next config) of Some n \<Rightarrow> Some n | None \<Rightarrow>
     (case route_to ns (conf_ge (r_confidence result) (7/10)) (next_high_confidence config) of
        Some n \<Rightarrow> Some n | None \<Rightarrow>
     (case route_to ns (conf_lt (r_confidence result) (7/10)) (next_low_confidence config) of
        Some n \<Rightarrow> Some n | None \<Rightarrow>
     (case route_to ns (is_true (r_found result)) (next_found config) of
        Some n \<Rightarrow> Some n | None \<Rightarrow>
     (case route_to ns (\<not> is_true (r_found result)) (next_not_found config) of
        Some n \<Rightarrow> Some n | None \<Rightarrow>
     (case route_to ns True (fallback config) of Some n \<Rightarrow> Some n | None \<Rightarrow>
      nodes_get ns ''end'')))))))"


section \<open>Exceptions and external services\<close>

datatype exn = TypeError string | ServiceError string

fun message :: "exn \<Rightarrow> string" where
  "message (TypeError m) = m"
| "message (ServiceError m) = m"

definition undefined_read :: "string \<Rightarrow> exn" where
  \<comment> \<open>reading a property of \<open>undefined\<close>\<close>
  "undefined_read key =
     TypeError (''Cannot read properties of undefined (reading '' @ [CHR 0x27] @ key @ [CHR 0x27] @ '')'')"

definition config_read :: "node \<Rightarrow> string \<Rightarrow> exn + config" where
  \<comment> \<open>\<open>node.config.key\<close> throws when the node has no \<open>config\<close>\<close>
  "config_read n key = (case n_config n of None \<Rightarrow> Inl (undefined_read key) | Some c \<Rightarrow> Inr c)"

record nlp_content =
  c_intent :: "string option"
  c_confidence :: "rat option"
  c_requires_product_search :: "bool option"
  c_requires_agent_escalation :: "bool option"

record ranked_item =
  ri_id :: "string option"
  ri_name :: "string option"
  ri_index :: "int option"
  ri_relevance_score :: "rat option"
  ri_reasoning :: "string option"

record rank_content =
  rc_products :: "ranked_item list option"
  rc_overall_reasoning :: "string option"
  rc_reasoning :: "string option"
  rc_confidence :: "rat option"

record image_content =
  ic_product_name :: "string option"
  ic_category :: "string option"
  ic_brand :: "string option"

record transcription_content =
  tc_text :: "string option"
  tc_language :: "string option"

datatype template = Plain string | Localized "string \<Rightarrow> string option"

text \<open>
  The engine with everything it gets from outside: the graph and the templates of
  \<open>workflow.json\<close>, and the external services (the chat-completion, vision and
  transcription endpoints, the product store). A service is a function to \<open>exn + reply\<close>:
  \<open>Inl\<close> is whatever the guarded block around the call throws (the call itself failing, or
  its payload not parsing), \<open>Inr\<close> the parsed reply with the token count of the call. Each
  service also sees the context of the call, so that two calls of one run may answer
  differently. The text a product list is rendered to (it uses the locale) and JavaScript's
  \<open>String.replace\<close> with a string pattern are parameters as well.
\<close>

record engine =
  nodes :: "node list"
  templates :: "(string \<Rightarrow> template option) option"
  nlp_completion :: "node \<Rightarrow> execution_context \<Rightarrow> exn + (nlp_content \<times> nat)"
  rank_completion :: "node \<Rightarrow> execution_context \<Rightarrow> exn + (rank_content \<times> nat)"
  recommender_completion :: "string \<Rightarrow> product list \<Rightarrow> execution_context \<Rightarrow> exn + (rank_content \<times> nat)"
  find_products :: "node \<Rightarrow> execution_context \<Rightarrow> exn + product list"
  find_first_product :: "node \<Rightarrow> execution_context \<Rightarrow> exn + product option"
  search_products :: "string \<Rightarrow> execution_context \<Rightarrow> exn + product list"
  image_completion :: "string \<Rightarrow> execution_context \<Rightarrow> exn + (image_content \<times> nat)"
  whisper_transcription :: "string \<Rightarrow> string option \<Rightarrow> execution_context \<Rightarrow> exn + transcription_content"
  render_products :: "product list \<Rightarrow> string"
  str_replace :: "string \<Rightarrow> string \<Rightarrow> string \<Rightarrow> string"


section \<open>Node handlers\<close>

definition handleTrigger :: "node \<Rightarrow> execution_context \<Rightarrow> step_result" where
  "handleTrigger n ctx = result_of (empty_data\<lparr>d_message := user_message ctx\<rparr>)"

definition handleClassifier :: "node \<Rightarrow> execution_context \<Rightarrow> exn + (step_result \<times> execution_context)" where
  "handleClassifier n ctx =
    (let messageType =
           or_else (case metadata ctx of None \<Rightarrow> None | Some m \<Rightarrow> message_type m) ''text'' in
     case config_read n ''classify'' of Inl e \<Rightarrow> Inl e | Inr c \<Rightarrow>
     (case classify c of None \<Rightarrow> Inl (undefined_read ''find'')
      | Some rs \<Rightarrow>
         let route = find (\<lambda>r. cr_type r = Some messageType) rs in
         Inr ((result_of empty_data)
                \<lparr>r_next := (case route of None \<Rightarrow> None | Some r \<Rightarrow> cr_next r)\<rparr>,
              ctx\<lparr>messageType := Some messageType\<rparr>)))"

definition degraded_nlp :: "string \<Rightarrow> step_result" where
  \<comment> \<open>the result both fallbacks of \<open>handleNLP\<close> return, with the given \<open>error\<close>\<close>
  "degraded_nlp err =
     \<lparr>r_data = Some (empty_data\<lparr>d_intent := Some ''general_question'',
          d_confidence := Some (3/10), d_requires_product_search := Some False,
          d_requires_agent_escalation := Some False\<rparr>),
      r_next = None, r_confidence = Some (3/10), r_found = None, r_tokensUsed = 0,
      r_error = Some err\<rparr>"

definition handleNLP :: "engine \<Rightarrow> node \<Rightarrow> execution_context \<Rightarrow> exn + step_result" where
  "handleNLP E n ctx =
    (let msg = js_or (user_message ctx) (last_field ctx d_message) in
     if \<not> truthy msg then Inr (degraded_nlp ''No message to process'')
     else (case config_read n ''system_prompt'' of Inl e \<Rightarrow> Inl e | Inr c \<Rightarrow>
     (case nlp_completion E n ctx of
        Inl e \<Rightarrow> Inr (degraded_nlp (message e))
      | Inr (content, tokens) \<Rightarrow>
         Inr \<lparr>r_data = Some (empty_data\<lparr>d_intent := c_intent content,
                 d_confidence := Some (num_or (c_confidence content) (1/2)),
                 d_requires_product_search := Some (is_true (c_requires_product_search content)),
                 d_requires_agent_escalation :=
                   Some (is_true (c_requires_agent_escalation content))\<rparr>),
              r_next = None, r_confidence = Some (num_or (c_confidence content) (1/2)),
              r_found = None, r_tokensUsed = tokens, r_error = None\<rparr>)))"

definition handleRouter :: "node \<Rightarrow> execution_context \<Rightarrow> exn + step_result" where
  "handleRouter n ctx =
    (let intent = last_field ctx d_intent in
     case config_read n ''routes'' of Inl e \<Rightarrow> Inl e | Inr c \<Rightarrow>
     (case routes c of None \<Rightarrow> Inl (undefined_read ''find'')
      | Some rs \<Rightarrow>
         let route = find (\<lambda>r. ir_intent r = intent) rs in
         Inr ((result_of (empty_data\<lparr>d_intent := intent\<rparr>))
                \<lparr>r_next := js_or (case route of None \<Rightarrow> None | Some r \<Rightarrow> ir_next r)
                                 (fallback c)\<rparr>)))"

definition found_result :: "data \<Rightarrow> bool \<Rightarrow> step_result" where
  \<comment> \<open>\<open>{ data, tokensUsed: 0, found }\<close>\<close>
  "found_result d f = (result_of d)\<lparr>r_found := Some f\<rparr>"

definition semanticProductSearch :: "engine \<Rightarrow> node \<Rightarrow> execution_context \<Rightarrow> exn + step_result" where
  \<comment> \<open>the store query and the area filter on its rows are the service \<open>find_products\<close>\<close>
  "semanticProductSearch E n ctx =
    (case find_products E n ctx of Inl e \<Rightarrow> Inl e
     | Inr filteredProducts \<Rightarrow>
        Inr (found_result (empty_data\<lparr>d_products := Some filteredProducts\<rparr>)
               (length filteredProducts > 0)))"

definition getProductPrice :: "engine \<Rightarrow> node \<Rightarrow> execution_context \<Rightarrow> exn + step_result" where
  "getProductPrice E n ctx =
    (case find_first_product E n ctx of Inl e \<Rightarrow> Inl e
     | Inr product \<Rightarrow> Inr (found_result empty_data (product \<noteq> None)))"

definition getOrderStatus :: "step_result" where
  "getOrderStatus = found_result empty_data False"

definition join_with :: "string \<Rightarrow> string list \<Rightarrow> string" where
  \<comment> \<open>\<open>Array.join\<close>\<close>
  "join_with sep xs = (case xs of [] \<Rightarrow> [] | y # ys \<Rightarrow> foldl (\<lambda>acc z. acc @ sep @ z) y ys)"

definition visualProductSearch :: "engine \<Rightarrow> node \<Rightarrow> execution_context \<Rightarrow> exn + step_result" where
  "visualProductSearch E n ctx =
    (case last_field ctx d_analysis of
       None \<Rightarrow> Inr (found_result (empty_data\<lparr>d_products := Some []\<rparr>) False)
     | Some a \<Rightarrow>
        if \<not> a_success a then Inr (found_result (empty_data\<lparr>d_products := Some []\<rparr>) False)
        else
          let searchTerms = join_with '' ''
                (map (\<lambda>t. or_else t []) (filter truthy [a_product_name a, a_category a, a_brand a])) in
          if searchTerms = [] then Inr (found_result (empty_data\<lparr>d_products := Some []\<rparr>) False)
          else (case search_products E searchTerms ctx of Inl e \<Rightarrow> Inl e
                | Inr products \<Rightarrow>
                   Inr (found_result
                          (empty_data\<lparr>d_products := Some products, d_analysis := Some a\<rparr>)
                          (length products > 0))))"

definition previous_response :: "execution_context \<Rightarrow> string option" where
  \<comment> \<open>\<open>finalResponse || optimized || response || formatted\<close> of the last result\<close>
  "previous_response ctx =
     js_or (last_field ctx d_finalResponse) (js_or (last_field ctx d_optimized)
       (js_or (last_field ctx d_response) (last_field ctx d_formatted)))"

definition logConversation :: "execution_context \<Rightarrow> step_result" where
  "logConversation ctx =
     result_of (empty_data\<lparr>d_finalResponse := previous_response ctx,
       d_response := previous_response ctx, d_optimized := previous_response ctx\<rparr>)"

definition handleDatabase :: "engine \<Rightarrow> node \<Rightarrow> execution_context \<Rightarrow> exn + step_result" where
  "handleDatabase E n ctx =
    (case config_read n ''operation'' of Inl e \<Rightarrow> Inl e | Inr c \<Rightarrow>
     (case (if operation c = Some ''semantic_search'' then semanticProductSearch E n ctx
            else if operation c = Some ''get_price'' then getProductPrice E n ctx
            else if operation c = Some ''get_order_status'' then Inr getOrderStatus
            else if operation c = Some ''log'' then Inr (logConversation ctx)
            else if operation c = Some ''visual_search'' then visualProductSearch E n ctx
            else Inr (found_result empty_data False)) of
        Inl e \<Rightarrow> Inr ((found_result empty_data False)\<lparr>r_error := Some (message e)\<rparr>)
      | Inr r \<Rightarrow> Inr r))"

text \<open>
  \<open>ProductRecommender\<close>: \<open>rankProducts\<close> asks the chat-completion service for a
  ranking of the candidates (by 1-based index) and, when anything in its guarded block
  throws, returns the first three candidates with relevance 0.5.
\<close>

record ranking =
  rk_products :: "product list"
  rk_confidence :: rat
  rk_reasoning :: string
  rk_tokensUsed :: "nat option"

definition score_of :: "product \<Rightarrow> rat" where
  "score_of p = (case relevance_score p of None \<Rightarrow> 0 | Some x \<Rightarrow> x)"

definition sort_by_relevance :: "product list \<Rightarrow> product list" where
  \<comment> \<open>\<open>.sort((a, b) => b.relevance_score - a.relevance_score)\<close>, a stable sort\<close>
  "sort_by_relevance ps = sort_key (\<lambda>p. - score_of p) ps"

definition nth_opt :: "'a list \<Rightarrow> int \<Rightarrow> 'a option" where
  \<comment> \<open>\<open>xs[i]\<close>, \<open>undefined\<close> out of range\<close>
  "nth_opt xs i = (if 0 \<le> i \<and> i < int (length xs) then Some (xs ! nat i) else None)"

definition rank_fallback :: "product list \<Rightarrow> ranking" where
  "rank_fallback products =
     \<lparr>rk_products = map (\<lambda>p. p\<lparr>relevance_score := Some (1/2),
                                  p_reasoning := Some ''Fallback ranking by popularity''\<rparr>)
                         (take 3 products),
      rk_confidence = 1/2, rk_reasoning = ''Used fallback ranking method'',
      rk_tokensUsed = Some 0\<rparr>"

definition rankProducts :: "engine \<Rightarrow> string \<Rightarrow> product list \<Rightarrow> execution_context \<Rightarrow> ranking" where
  "rankProducts E query products ctx =
    (if length products = 0 then
       \<lparr>rk_products = [], rk_confidence = 0, rk_reasoning = ''No products to rank.'',
        rk_tokensUsed = None\<rparr>
     else
       (case recommender_completion E query products ctx of
          Inl e \<Rightarrow> rank_fallback products
        | Inr (result, tokens) \<Rightarrow>
           (case rc_products result of
              None \<Rightarrow> rank_fallback products
            | Some items \<Rightarrow>
               \<lparr>rk_products = sort_by_relevance (List.map_filter (\<lambda>ranked.
                    (case ri_index ranked of None \<Rightarrow> None
                     | Some i \<Rightarrow>
                        (case nth_opt products (i - 1) of None \<Rightarrow> None
                         | Some product \<Rightarrow>
                            Some (product\<lparr>relevance_score :=
                                     Some (num_or (ri_relevance_score ranked) (1/2)),
                                   p_reasoning :=
                                     Some (or_else (ri_reasoning ranked) ''Relevant product'')\<rparr>))))
                    items),
                rk_confidence = num_or (rc_confidence result) (7/10),
                rk_reasoning = or_else (rc_overall_reasoning result) ''Products ranked by relevance'',
                rk_tokensUsed = Some tokens\<rparr>)))"

record recommendation =
  rec_products :: "product list"
  rec_confidence :: rat
  rec_reasoning :: string
  rec_fallbackProducts :: "product list option"

definition recommend :: "engine \<Rightarrow> string option \<Rightarrow> execution_context \<Rightarrow> exn + recommendation" where
  \<comment> \<open>\<open>searchProducts\<close> lowercases the query first, and its store query may throw\<close>
  "recommend E query ctx =
    (case query of None \<Rightarrow> Inl (undefined_read ''toLowerCase'')
     | Some q \<Rightarrow>
        (case search_products E q ctx of Inl e \<Rightarrow> Inl e
         | Inr products \<Rightarrow>
            if length products = 0 then
              Inr \<lparr>rec_products = [], rec_confidence = 0,
                   rec_reasoning = ''No products found matching your query.'',
                   rec_fallbackProducts = None\<rparr>
            else
              (let ranked = rankProducts E q products ctx;
                   relevant = filter (\<lambda>p. conf_ge (relevance_score p) (6/10)) (rk_products ranked)
               in if length relevant = 0 then
                    Inr \<lparr>rec_products = [], rec_confidence = rk_confidence ranked,
                         rec_reasoning = ''I found products, but none are highly relevant to your query. Would you like to see them anyway, or refine your search?'',
                         rec_fallbackProducts = Some (take 3 (rk_products ranked))\<rparr>
                  else
                    Inr \<lparr>rec_products = take 3 relevant, rec_confidence = rk_confidence ranked,
                         rec_reasoning = rk_reasoning ranked, rec_fallbackProducts = None\<rparr>)))"

definition is_space :: "char \<Rightarrow> bool" where
  "is_space c = (c \<in> {CHR 0x09, CHR 0x0A, CHR 0x0B, CHR 0x0C, CHR 0x0D, CHR 0x20, CHR 0xA0})"

definition js_trim :: "string \<Rightarrow> string" where
  "js_trim s = rev (dropWhile is_space (rev (dropWhile is_space s)))"

definition int_or :: "int option \<Rightarrow> int \<Rightarrow> int" where
  \<comment> \<open>\<open>x || d\<close> on integers\<close>
  "int_or a d = (case a of None \<Rightarrow> d | Some x \<Rightarrow> if x = 0 then d else x)"

definition slice0 :: "int \<Rightarrow> 'a list \<Rightarrow> 'a list" where
  \<comment> \<open>\<open>xs.slice(0, k)\<close>: a negative \<open>k\<close> counts from the end\<close>
  "slice0 k xs = (if k < 0 then take (nat (int (length xs) + k)) xs else take (nat k) xs)"

definition brand_model :: "product \<Rightarrow> string" where
  \<comment> \<open>the template literal \<open>`${p.brand} ${p.features?.model || ''}`.trim()\<close>; a missing
      brand is the store's \<open>null\<close>\<close>
  "brand_model p =
     js_trim ((case p_brand p of None \<Rightarrow> ''null'' | Some b \<Rightarrow> b) @ '' '' @ or_else (p_model p) [])"

definition ml_fallback :: "config \<Rightarrow> product list \<Rightarrow> step_result" where
  \<comment> \<open>the \<open>catch\<close> block of the ranker branch of \<open>handleML\<close>\<close>
  "ml_fallback c products =
     \<lparr>r_data = Some (empty_data\<lparr>d_products := Some (slice0 (int_or (top_n c) 5) products),
                        d_reasoning := Some ''Fallback ranking by popularity''\<rparr>),
      r_next = None, r_confidence = Some (1/2), r_found = None, r_tokensUsed = 0,
      r_error = None\<rparr>"

definition handleML :: "engine \<Rightarrow> node \<Rightarrow> execution_context \<Rightarrow> exn + step_result" where
  "handleML E n ctx =
    (let products = (case last_field ctx d_products of None \<Rightarrow> [] | Some ps \<Rightarrow> ps) in
     if n_id n = ''product_recommender'' then
       (case recommend E (user_message ctx) ctx of Inl e \<Rightarrow> Inl e
        | Inr r \<Rightarrow>
           Inr \<lparr>r_data = Some (empty_data\<lparr>d_products := Some (rec_products r),
                   d_reasoning := Some (rec_reasoning r),
                   d_fallbackProducts := rec_fallbackProducts r\<rparr>),
                r_next = None, r_confidence = Some (rec_confidence r), r_found = None,
                r_tokensUsed = 0, r_error = None\<rparr>)
     else if n_id n = ''bike_ranker'' \<or> n_id n = ''product_ranker'' then
       (if length products = 0 then
          Inr \<lparr>r_data = Some (empty_data\<lparr>d_products := Some [],
                  d_reasoning := Some ''No products found''\<rparr>),
               r_next = None, r_confidence = Some 0, r_found = None, r_tokensUsed = 0,
               r_error = None\<rparr>
        else
          (case config_read n ''system_prompt'' of Inl e \<Rightarrow> Inl e
           | Inr c \<Rightarrow>
              (case rank_completion E n ctx of
                 Inl e \<Rightarrow> Inr (ml_fallback c products)
               | Inr (content, tokens) \<Rightarrow>
                  Inr \<lparr>r_data = Some (empty_data\<lparr>d_products := Some (slice0 (int_or (top_n c) 5)
                          (sort_by_relevance (List.map_filter (\<lambda>ranked.
                             (case find (\<lambda>p. Some (p_id p) = ri_id ranked
                                            \<or> Some (p_name p) = ri_name ranked
                                            \<or> Some (brand_model p) = ri_name ranked) products of
                                None \<Rightarrow> None
                              | Some product \<Rightarrow>
                                 Some (product\<lparr>relevance_score :=
                                          Some (num_or (ri_relevance_score ranked) (1/2)),
                                        p_reasoning :=
                                          Some (or_else (ri_reasoning ranked) ''Relevant product'')\<rparr>)))
                             (case rc_products content of None \<Rightarrow> [] | Some items \<Rightarrow> items)))),
                          d_reasoning := js_or (rc_overall_reasoning content) (rc_reasoning content)\<rparr>),
                       r_next = None, r_confidence = Some (num_or (rc_confidence content) (7/10)),
                       r_found = None, r_tokensUsed = tokens, r_error = None\<rparr>)))
     else
       Inr \<lparr>r_data = Some (empty_data\<lparr>d_products := Some [], d_reasoning := Some ''No results''\<rparr>),
            r_next = None, r_confidence = Some 0, r_found = None, r_tokensUsed = 0,
            r_error = None\<rparr>)"

definition prop_key :: "string option \<Rightarrow> string" where
  \<comment> \<open>an \<open>undefined\<close> property key reads the property named \<open>undefined\<close>\<close>
  "prop_key k = (case k of None \<Rightarrow> ''undefined'' | Some x \<Rightarrow> x)"

definition localized :: "(string \<Rightarrow> string option) \<Rightarrow> string \<Rightarrow> string option" where
  \<comment> \<open>\<open>t[language] || t['english']\<close>\<close>
  "localized t lang = js_or (t lang) (t ''english'')"

definition get_template :: "engine \<Rightarrow> string option \<Rightarrow> string \<Rightarrow> exn + string" where
  \<comment> \<open>the template lookup of the formatter, the handler and the action node\<close>
  "get_template E templateKey lang =
    (case templates E of None \<Rightarrow> Inl (undefined_read (prop_key templateKey))
     | Some ts \<Rightarrow>
        (case ts (prop_key templateKey) of
           Some (Localized t) \<Rightarrow> Inr (or_else (localized t lang) [])
         | Some (Plain t) \<Rightarrow> Inr t
         | None \<Rightarrow> Inr []))"

definition language_of :: "execution_context \<Rightarrow> string" where
  \<comment> \<open>\<open>context.language || context.lastResult?.data?.language || 'english'\<close>\<close>
  "language_of ctx = or_else (js_or (language ctx) (last_field ctx d_language)) ''english''"

definition handleFormatter :: "engine \<Rightarrow> node \<Rightarrow> execution_context \<Rightarrow> exn + step_result" where
  "handleFormatter E n ctx =
    (let products = (case last_field ctx d_products of None \<Rightarrow> [] | Some ps \<Rightarrow> ps) in
     case config_read n ''template'' of Inl e \<Rightarrow> Inl e | Inr c \<Rightarrow>
     (case get_template E (template c) (language_of ctx) of Inl e \<Rightarrow> Inl e
      | Inr t \<Rightarrow>
         (let formatted1 =
                (if length products > 0 then
                   str_replace E (str_replace E t ''{bikes}'' (render_products E products))
                     ''{products}'' (render_products E products)
                 else t);
              formatted2 =
                (if include_context c \<and> truthy (last_field ctx d_questions) then
                   str_replace E formatted1 ''{questions}'' (or_else (last_field ctx d_questions) [])
                 else formatted1)
          in Inr (result_of (empty_data\<lparr>d_formatted := Some formatted2,
                    d_products := Some products\<rparr>)))))"

function collapse_newlines :: "string \<Rightarrow> string" where
  \<comment> \<open>\<open>.replace(/\n{3,}/g, '\n\n')\<close>\<close>
  "collapse_newlines s =
    (case s of [] \<Rightarrow> []
     | c # cs \<Rightarrow>
        if c = CHR 0x0A then
          (if length (takeWhile (\<lambda>x. x = CHR 0x0A) s) \<ge> 3 then [CHR 0x0A, CHR 0x0A]
           else takeWhile (\<lambda>x. x = CHR 0x0A) s)
          @ collapse_newlines (dropWhile (\<lambda>x. x = CHR 0x0A) cs)
        else c # collapse_newlines cs)"
  by pat_completeness auto
termination
  by (relation "measure length") (auto simp: length_dropWhile_le less_Suc_eq_le)

definition handleOptimizer :: "node \<Rightarrow> execution_context \<Rightarrow> exn + step_result" where
  "handleOptimizer n ctx =
    (let response = js_trim (collapse_newlines (or_else (last_field ctx d_formatted) []));
         estimatedTokens = (length response + 3) div 4
     in case config_read n ''max_tokens'' of Inl e \<Rightarrow> Inl e | Inr c \<Rightarrow>
        (let maxTokens = (case max_tokens c of None \<Rightarrow> 500 | Some m \<Rightarrow> if m = 0 then 500 else m)
         in Inr (result_of (empty_data\<lparr>d_optimized :=
              Some (if estimatedTokens > maxTokens then take (maxTokens * 4) response @ ''...''
                    else response)\<rparr>))))"

definition handleHandler :: "engine \<Rightarrow> node \<Rightarrow> execution_context \<Rightarrow> exn + step_result" where
  "handleHandler E n ctx =
    (case config_read n ''template'' of Inl e \<Rightarrow> Inl e | Inr c \<Rightarrow>
     (case get_template E (template c) (language_of ctx) of Inl e \<Rightarrow> Inl e
      | Inr t \<Rightarrow>
         (let response =
                (if include_context c \<and> truthy (last_field ctx d_questions) then
                   str_replace E t ''{questions}'' (or_else (last_field ctx d_questions) [])
                 else t)
          in Inr (result_of (empty_data\<lparr>d_response := Some response,
                    d_formatted := Some response, d_finalResponse := Some response\<rparr>)))))"

definition agent_literal :: string where
  "agent_literal = ''I'm connecting you with a human agent...''"

definition handleEscalation :: "engine \<Rightarrow> node \<Rightarrow> execution_context \<Rightarrow> exn + step_result" where
  "handleEscalation E n ctx =
    (case templates E of None \<Rightarrow> Inl (undefined_read ''agent_transfer'')
     | Some ts \<Rightarrow>
        (let response =
               (case ts ''agent_transfer'' of
                  Some (Localized t) \<Rightarrow> or_else (localized t (language_of ctx)) agent_literal
                | Some (Plain t) \<Rightarrow> or_else (Some t) agent_literal
                | None \<Rightarrow> agent_literal)
         in case config_read n ''next'' of Inl e \<Rightarrow> Inl e | Inr c \<Rightarrow>
            Inr ((result_of (empty_data\<lparr>d_response := Some response,
                    d_formatted := Some response, d_finalResponse := Some response\<rparr>))
                   \<lparr>r_next := Some (or_else (cfg_next c) ''response_sender'')\<rparr>)))"

definition apology :: string where
  "apology = ''I apologize, I couldn't process that request. Please try rephrasing your question.''"

definition action_pick :: "data \<Rightarrow> string option" where
  \<comment> \<open>\<open>d.optimized || d.response || d.formatted || d.finalResponse\<close>\<close>
  "action_pick d =
     js_or (d_optimized d) (js_or (d_response d) (js_or (d_formatted d) (d_finalResponse d)))"

fun scan_back :: "(data \<Rightarrow> string option) \<Rightarrow> step_result list \<Rightarrow> string option" where
  \<comment> \<open>the loop \<open>for (i = length - 1; i >= 0; i--)\<close> over stored results, on the reversed
      list: the first truthy pick, if any\<close>
  "scan_back pick [] = None"
| "scan_back pick (r # rs) =
     (case r_data r of None \<Rightarrow> scan_back pick rs
      | Some d \<Rightarrow> if truthy (pick d) then pick d else scan_back pick rs)"

text \<open>
  \<open>handleAction\<close>. Its second priority walks \<open>workflowSteps\<close> and reads
  \<open>step.result?.data\<close>; a step trace has no \<open>data\<close> key, so that walk never assigns.
\<close>

definition handleAction :: "engine \<Rightarrow> node \<Rightarrow> execution_context \<Rightarrow> exn + step_result" where
  "handleAction E n ctx =
    (let response1 = (case last_data ctx of None \<Rightarrow> None | Some d \<Rightarrow> action_pick d);
         response3 = (if \<not> truthy response1 then scan_back action_pick (rev (allResults ctx))
                      else response1)
     in if \<not> truthy response3 then
          (let intent = or_else (last_field ctx d_intent) ''greeting'';
               templateKey = (if intent = ''greeting'' then ''greeting'' else intent @ ''_response'')
           in case get_template E (Some templateKey) (language_of ctx) of Inl e \<Rightarrow> Inl e
              | Inr t1 \<Rightarrow>
                 (case (if t1 = [] then get_template E (Some ''greeting'') (language_of ctx)
                        else Inr t1) of
                    Inl e \<Rightarrow> Inl e
                  | Inr t2 \<Rightarrow>
                     Inr (result_of (empty_data\<lparr>d_finalResponse :=
                            Some (or_else (Some t2) apology)\<rparr>))))
        else Inr (result_of (empty_data\<lparr>d_finalResponse := response3\<rparr>)))"

definition processImage :: "engine \<Rightarrow> string \<Rightarrow> execution_context \<Rightarrow> analysis" where
  \<comment> \<open>\<open>ImageProcessor.processImage\<close>: its own \<open>catch\<close> turns every failure into
      \<open>{ success: false, error, tokensUsed: 0 }\<close>\<close>
  "processImage E imageUrl ctx =
    (case image_completion E imageUrl ctx of
       Inl e \<Rightarrow> \<lparr>a_success = False, a_error = Some (message e), a_tokensUsed = 0,
                 a_product_name = None, a_category = None, a_brand = None\<rparr>
     | Inr (content, tokens) \<Rightarrow>
        \<lparr>a_success = True, a_error = None, a_tokensUsed = tokens,
         a_product_name = ic_product_name content, a_category = ic_category content,
         a_brand = ic_brand content\<rparr>)"

definition error_result :: "string option \<Rightarrow> nat \<Rightarrow> string option \<Rightarrow> step_result" where
  \<comment> \<open>\<open>{ data: { error: d }, tokensUsed, error }\<close>\<close>
  "error_result d tokens err =
     \<lparr>r_data = Some (empty_data\<lparr>d_error := d\<rparr>), r_next = None, r_confidence = None,
      r_found = None, r_tokensUsed = tokens, r_error = err\<rparr>"

definition handleVision :: "engine \<Rightarrow> node \<Rightarrow> execution_context \<Rightarrow> step_result" where
  "handleVision E n ctx =
    (let imageUrl = (case metadata ctx of None \<Rightarrow> None
                     | Some m \<Rightarrow> js_or (media_url m) (image_url m)) in
     if \<not> truthy imageUrl then
       error_result (Some ''No image URL provided'') 0 (Some ''Missing image URL'')
     else
       (let a = processImage E (or_else imageUrl []) ctx in
        if \<not> a_success a then error_result (a_error a) (a_tokensUsed a) (a_error a)
        else \<lparr>r_data = Some (empty_data\<lparr>d_analysis := Some a\<rparr>), r_next = None,
               r_confidence = None, r_found = None, r_tokensUsed = a_tokensUsed a,
               r_error = None\<rparr>))"

record transcription =
  tr_text :: "string option"
  tr_language :: "string option"
  tr_success :: bool
  tr_error :: "string option"

definition transcribe :: "engine \<Rightarrow> string \<Rightarrow> string option \<Rightarrow> execution_context \<Rightarrow> transcription" where
  \<comment> \<open>\<open>VoiceProcessor.transcribe\<close>, which catches every failure itself\<close>
  "transcribe E audioUrl lang ctx =
    (case whisper_transcription E audioUrl lang ctx of
       Inl e \<Rightarrow> \<lparr>tr_text = Some [], tr_language = None, tr_success = False,
                 tr_error = Some (message e)\<rparr>
     | Inr t \<Rightarrow> \<lparr>tr_text = tc_text t, tr_language = tc_language t, tr_success = True,
                 tr_error = None\<rparr>)"

definition handleSpeech :: "engine \<Rightarrow> node \<Rightarrow> execution_context \<Rightarrow> step_result \<times> execution_context" where
  "handleSpeech E n ctx =
    (let audioUrl = (case metadata ctx of None \<Rightarrow> None
                     | Some m \<Rightarrow> js_or (voice_url m) (audio_url m)) in
     if \<not> truthy audioUrl then
       (error_result (Some ''No audio URL provided'') 0 (Some ''Missing audio URL''), ctx)
     else
       (case config_read n ''language'' of
          Inl e \<Rightarrow> (error_result (Some (message e)) 0 (Some (message e)), ctx)
        | Inr c \<Rightarrow>
           (let t = transcribe E (or_else audioUrl [])
                      (if truthy (cfg_language c) then cfg_language c else None) ctx in
            if \<not> tr_success t then (error_result (tr_error t) 0 (tr_error t), ctx)
            else (result_of (empty_data\<lparr>d_language := tr_language t\<rparr>),
                  ctx\<lparr>user_message := tr_text t, transcribed := True\<rparr>))))"

definition unchanged :: "execution_context \<Rightarrow> exn + step_result \<Rightarrow> exn + (step_result \<times> execution_context)" where
  \<comment> \<open>a handler that does not assign to the context\<close>
  "unchanged ctx r = (case r of Inl e \<Rightarrow> Inl e | Inr x \<Rightarrow> Inr (x, ctx))"

definition executeNode :: "engine \<Rightarrow> node \<Rightarrow> execution_context \<Rightarrow> exn + (step_result \<times> execution_context)" where
  "executeNode E n ctx =
    (if n_type n = ''trigger'' then Inr (handleTrigger n ctx, ctx)
     else if n_type n = ''classifier'' then handleClassifier n ctx
     else if n_type n = ''nlp'' then unchanged ctx (handleNLP E n ctx)
     else if n_type n = ''router'' then unchanged ctx (handleRouter n ctx)
     else if n_type n = ''database'' then unchanged ctx (handleDatabase E n ctx)
     else if n_type n = ''ml'' then unchanged ctx (handleML E n ctx)
     else if n_type n = ''formatter'' then unchanged ctx (handleFormatter E n ctx)
     else if n_type n = ''optimizer'' then unchanged ctx (handleOptimizer n ctx)
     else if n_type n = ''handler'' then unchanged ctx (handleHandler E n ctx)
     else if n_type n = ''escalation'' then unchanged ctx (handleEscalation E n ctx)
     else if n_type n = ''action'' then unchanged ctx (handleAction E n ctx)
     else if n_type n = ''vision'' then Inr (handleVision E n ctx, ctx)
     else if n_type n = ''speech'' then Inr (handleSpeech E n ctx)
     else Inr (\<lparr>r_data = last_data ctx, r_next = None, r_confidence = None, r_found = None,
                r_tokensUsed = 0, r_error = None\<rparr>, ctx))"


section \<open>The run driver\<close>

fun decimal :: "nat \<Rightarrow> string" where
  \<comment> \<open>a number inside a template literal\<close>
  "decimal n = (if n < 10 then [''0123456789'' ! n]
                else decimal (n div 10) @ [''0123456789'' ! (n mod 10)])"

text \<open>
  The state of the \<open>while\<close> loop of \<open>execute\<close>: the variable \<open>currentNode\<close> and the
  object \<open>executionContext\<close>. The field \<open>dispatched\<close> is not program state: it logs
  every call of \<open>executeNode\<close> with its outcome, so that properties of the calls made in
  a run can be stated.
\<close>

datatype dispatch = Returned node step_result | Threw node exn

fun results_of :: "dispatch list \<Rightarrow> step_result list" where
  "results_of [] = []"
| "results_of (Returned n r # ds) = r # results_of ds"
| "results_of (Threw n e # ds) = results_of ds"

fun target_of :: "dispatch \<Rightarrow> string" where
  "target_of (Returned n r) = n_id n"
| "target_of (Threw n e) = n_id n"

record run_state =
  currentNode :: "node option"
  executionContext :: execution_context
  dispatched :: "dispatch list"

datatype flow = Again | Break

definition on_fault :: "engine \<Rightarrow> execution_context \<Rightarrow> node option" where
  \<comment> \<open>where both fault paths send the run\<close>
  "on_fault E ctx =
     (if ''agent_escalation'' \<notin> visitedNodes ctx then nodes_get (nodes E) ''agent_escalation''
      else nodes_get (nodes E) ''response_sender'')"

definition trace_of :: "node \<Rightarrow> step_result \<Rightarrow> step_trace" where
  "trace_of n result =
     \<lparr>st_node = n_id n, st_nodeName = n_name n, st_hasData = (r_data result \<noteq> None),
      st_hasError = truthy (r_error result), st_confidence = r_confidence result,
      st_found = r_found result, st_tokensUsed = r_tokensUsed result\<rparr>"

definition track_final :: "step_result \<Rightarrow> execution_context \<Rightarrow> execution_context" where
  \<comment> \<open>\<open>if (d?.finalResponse || d?.optimized || d?.response) finalResponse = ...\<close>\<close>
  "track_final result ctx =
     (case r_data result of None \<Rightarrow> ctx
      | Some d \<Rightarrow>
         if truthy (js_or (d_finalResponse d) (js_or (d_optimized d) (d_response d))) then
           ctx\<lparr>finalResponse := js_or (d_finalResponse d) (js_or (d_optimized d) (d_response d))\<rparr>
         else ctx)"

definition loop_body :: "engine \<Rightarrow> node \<Rightarrow> run_state \<Rightarrow> flow \<times> run_state" where
  "loop_body E cur s =
    (let ctx1 = (executionContext s)\<lparr>iterationCount := iterationCount (executionContext s) + 1\<rparr> in
     if iterationCount ctx1 > maxIterations ctx1 then
       (Break, s\<lparr>executionContext := ctx1\<lparr>errors := errors ctx1 @
          [''Workflow loop detected after '' @ decimal (iterationCount ctx1) @ '' iterations'']\<rparr>\<rparr>)
     else if length (filter (\<lambda>t. st_node t = n_id cur) (workflowSteps ctx1)) > 3 then
       (Break, s\<lparr>currentNode :=
                   (case nodes_get (nodes E) ''response_sender'' of
                      Some r \<Rightarrow> Some r | None \<Rightarrow> nodes_get (nodes E) ''end''),
                 executionContext := ctx1\<lparr>errors := errors ctx1 @
                   [''Infinite loop detected at node '' @ n_id cur]\<rparr>\<rparr>)
     else
       (case executeNode E cur ctx1 of
          Inl e \<Rightarrow>
           (Again, \<lparr>currentNode = on_fault E ctx1,
                    executionContext = ctx1\<lparr>errors := errors ctx1 @
                      [''Fatal error in '' @ n_id cur @ '': '' @ message e]\<rparr>,
                    dispatched = dispatched s @ [Threw cur e]\<rparr>)
        | Inr (result, ctx2) \<Rightarrow>
           (let ctx3 = ctx2\<lparr>workflowSteps := workflowSteps ctx2 @ [trace_of cur result]\<rparr> in
            if truthy (r_error result) then
              (Again, \<lparr>currentNode = on_fault E ctx3,
                       executionContext = ctx3\<lparr>errors := errors ctx3 @
                         [''Error in node '' @ n_id cur @ '' ('' @ n_name cur @ ''): ''
                            @ or_else (r_error result) []]\<rparr>,
                       dispatched = dispatched s @ [Returned cur result]\<rparr>)
            else
              (Again, \<lparr>currentNode = getNextNode (nodes E) cur result,
                       executionContext = track_final result
                         (ctx3\<lparr>tokensUsed := tokensUsed ctx3 + r_tokensUsed result,
                               lastResult := Some result,
                               allResults := allResults ctx3 @ [result]\<rparr>),
                       dispatched = dispatched s @ [Returned cur result]\<rparr>))))"

definition running :: "run_state \<Rightarrow> node option" where
  \<comment> \<open>the loop condition \<open>currentNode && currentNode.type !== 'end'\<close>\<close>
  "running s = (case currentNode s of None \<Rightarrow> None
                | Some n \<Rightarrow> if n_type n \<noteq> ''end'' then Some n else None)"

text \<open>
  The loop. Every pass that goes round again has raised \<open>iterationCount\<close> by one without
  passing \<open>maxIterations\<close>, which is the measure of its termination.
\<close>

function run_loop :: "engine \<Rightarrow> run_state \<Rightarrow> run_state" where
  "run_loop E s =
    (case running s of None \<Rightarrow> s
     | Some cur \<Rightarrow>
        (case loop_body E cur s of (Break, s') \<Rightarrow> s' | (Again, s') \<Rightarrow> run_loop E s'))"
  by pat_completeness auto
termination
proof (relation "measure (\<lambda>(E, s). Suc (maxIterations (executionContext s))
                    - iterationCount (executionContext s))", goal_cases)
  case 1
  show ?case by simp
next
  case (2 E s cur x1 x2)
  have kept: "iterationCount ctx' = iterationCount ctx \<and> maxIterations ctx' = maxIterations ctx"
    if "executeNode E cur ctx = Inr (r, ctx')" for ctx r ctx'
    using that
    by (auto simp: executeNode_def unchanged_def handleClassifier_def handleSpeech_def Let_def
        split: if_splits sum.splits option.splits)
  have tracked: "iterationCount (track_final r ctx) = iterationCount ctx
      \<and> maxIterations (track_final r ctx) = maxIterations ctx" for r ctx
    by (simp add: track_final_def split: option.splits)
  from 2 have "loop_body E cur s = (Again, x2)" by simp
  then have "iterationCount (executionContext x2) = Suc (iterationCount (executionContext s))
      \<and> maxIterations (executionContext x2) = maxIterations (executionContext s)
      \<and> iterationCount (executionContext x2) \<le> maxIterations (executionContext s)"
    by (auto simp: loop_body_def Let_def tracked
        split: if_splits sum.splits prod.splits dest: kept)
  then show ?case by auto
qed

declare run_loop.simps [simp del]

definition initial_state :: "engine \<Rightarrow> execution_context \<Rightarrow> run_state" where
  \<comment> \<open>\<open>currentNode = this.nodes.get('start')\<close> and the fresh \<open>executionContext\<close>\<close>
  "initial_state E c =
     \<lparr>currentNode = nodes_get (nodes E) ''start'',
      executionContext = c\<lparr>tokensUsed := 0, workflowSteps := [], errors := [], allResults := [],
        finalResponse := None, visitedNodes := {}, maxIterations := 100, iterationCount := 0\<rparr>,
      dispatched = []\<rparr>"

definition run :: "engine \<Rightarrow> execution_context \<Rightarrow> run_state" where
  "run E c = run_loop E (initial_state E c)"

definition execute :: "engine \<Rightarrow> execution_context \<Rightarrow> execution_context" where
  "execute E c = executionContext (run E c)"

text \<open>The states a run passes through: the initial one and the one after each pass of the loop.\<close>

inductive reachable :: "engine \<Rightarrow> execution_context \<Rightarrow> run_state \<Rightarrow> bool" for E c where
  start: "reachable E c (initial_state E c)"
| pass: "reachable E c s \<Longrightarrow> running s = Some cur \<Longrightarrow> loop_body E cur s = (f, s')
          \<Longrightarrow> reachable E c s'"


section \<open>The caller: response extraction of the test-chat route\<close>

definition route_pick :: "data \<Rightarrow> string option" where
  \<comment> \<open>\<open>d.finalResponse || d.optimized || d.response || d.formatted\<close>\<close>
  "route_pick d =
     js_or (d_finalResponse d) (js_or (d_optimized d) (js_or (d_response d) (d_formatted d)))"

definition test_chat_response :: "execution_context \<Rightarrow> string" where
  "test_chat_response result =
    (let response1 = (if truthy (last_field result d_finalResponse)
                      then last_field result d_finalResponse else None);
         response2 = (if \<not> truthy response1 then scan_back route_pick (rev (allResults result))
                      else response1);
         response4 = (if \<not> truthy response2 \<and> last_data result \<noteq> None then
                        js_or (last_field result d_optimized)
                          (js_or (last_field result d_response) (last_field result d_formatted))
                      else response2)
     in if \<not> truthy response4 then
          (if length (errors result) > 0 then
             ''I encountered an error: '' @ hd (errors result)
               @ ''. Please try again or contact support.''
           else apology)
        else or_else response4 [])"


section \<open>Notions used in the statements\<close>

text \<open>The step traces the logged calls give rise to: one for every call that returned.\<close>

fun traces_of :: "dispatch list \<Rightarrow> step_trace list" where
  "traces_of [] = []"
| "traces_of (Returned n r # ds) = trace_of n r # traces_of ds"
| "traces_of (Threw n e # ds) = traces_of ds"

text \<open>\<open>executionContext.iterationCount++\<close>\<close>

definition bump :: "execution_context \<Rightarrow> execution_context" where
  "bump ctx = ctx\<lparr>iterationCount := iterationCount ctx + 1\<rparr>"

text \<open>\<open>workflowSteps.filter(s => s.node === id).length\<close>\<close>

definition visits :: "string \<Rightarrow> step_trace list \<Rightarrow> nat" where
  "visits i ts = length (filter (\<lambda>t. st_node t = i) ts)"


text \<open>
  The text a stored step contributes to \<open>finalResponse\<close>:
  \<open>data.finalResponse || data.optimized || data.response\<close>.
\<close>

definition tracked_text :: "data \<Rightarrow> string option" where
  "tracked_text d = js_or (d_finalResponse d) (js_or (d_optimized d) (d_response d))"

text \<open>
  The priority chain of the resolver as the specification words it: an ordered list of
  references, each with the condition under which it applies; the first applicable reference
  that names a node of the graph wins, and the \<open>end\<close> node is the default.
\<close>

fun first_resolved :: "node list \<Rightarrow> (bool \<times> string option) list \<Rightarrow> node option" where
  "first_resolved ns [] = nodes_get ns ''end''"
| "first_resolved ns ((applies, ref) # rest) =
     (case ref of None \<Rightarrow> first_resolved ns rest
      | Some k \<Rightarrow>
         if applies \<and> k \<noteq> [] then
           (case nodes_get ns k of Some n \<Rightarrow> Some n | None \<Rightarrow> first_resolved ns rest)
         else first_resolved ns rest)"

definition priority_chain :: "node \<Rightarrow> step_result \<Rightarrow> (bool \<times> string option) list" where
  "priority_chain cur result =
     [(True, r_next result),
      (True, cfg_next (config_of cur)),
      (conf_ge (r_confidence result) (7/10), next_high_confidence (config_of cur)),
      (conf_lt (r_confidence result) (7/10), next_low_confidence (config_of cur)),
      (is_true (r_found result), next_found (config_of cur)),
      (\<not> is_true (r_found result), next_not_found (config_of cur)),
      (True, fallback (config_of cur))]"

text \<open>
  What \<open>rankProducts\<close> makes of a candidate when its ranking call fails, and the reasoning
  \<open>recommend\<close> gives when no ranked product reaches its relevance threshold.
\<close>

definition by_popularity :: "product \<Rightarrow> product" where
  "by_popularity p = p\<lparr>relevance_score := Some (1/2),
                        p_reasoning := Some ''Fallback ranking by popularity''\<rparr>"

definition none_relevant :: string where
  "none_relevant = ''I found products, but none are highly relevant to your query. Would you like to see them anyway, or refine your search?''"


section \<open>Example engines and graphs\<close>

text \<open>
  Concrete inputs for the closed statements below. \<open>offline\<close> is an engine none of whose
  external services answers; \<open>understood\<close> is one whose language-understanding call returns
  a greeting at the cost of 42 tokens.
\<close>

definition offline :: "node list \<Rightarrow> engine" where
  "offline ns =
     \<lparr>nodes = ns, templates = Some (\<lambda>k. None),
      nlp_completion = (\<lambda>n c. Inl (ServiceError ''service unavailable'')),
      rank_completion = (\<lambda>n c. Inl (ServiceError ''service unavailable'')),
      recommender_completion = (\<lambda>q ps c. Inl (ServiceError ''service unavailable'')),
      find_products = (\<lambda>n c. Inl (ServiceError ''service unavailable'')),
      find_first_product = (\<lambda>n c. Inl (ServiceError ''service unavailable'')),
      search_products = (\<lambda>q c. Inl (ServiceError ''service unavailable'')),
      image_completion = (\<lambda>u c. Inl (ServiceError ''service unavailable'')),
      whisper_transcription = (\<lambda>u l c. Inl (ServiceError ''service unavailable'')),
      render_products = (\<lambda>ps. []),
      str_replace = (\<lambda>s p r. s)\<rparr>"

definition graph_node :: "string \<Rightarrow> string \<Rightarrow> config \<Rightarrow> node" where
  "graph_node i t c = \<lparr>n_id = i, n_name = i, n_type = t, n_config = Some c\<rparr>"

definition text_message :: "string \<Rightarrow> execution_context" where
  "text_message m =
     \<lparr>user_message = Some m,
      metadata = Some \<lparr>message_type = Some ''text'', media_url = None, image_url = None,
                        voice_url = None, audio_url = None\<rparr>,
      language = None, messageType = None, transcribed = False, lastResult = None,
      tokensUsed = 0, workflowSteps = [], errors = [], allResults = [], finalResponse = None,
      visitedNodes = {}, maxIterations = 0, iterationCount = 0\<rparr>"

definition two_cycle :: "node list" where
  "two_cycle = [graph_node ''start'' ''trigger'' (empty_config\<lparr>cfg_next := Some ''b''\<rparr>),
                graph_node ''b'' ''trigger'' (empty_config\<lparr>cfg_next := Some ''start''\<rparr>)]"

definition image_only :: "node list" where
  "image_only = [graph_node ''start'' ''vision'' empty_config]"

definition understood :: "node list \<Rightarrow> engine" where
  "understood ns = (offline ns)\<lparr>nlp_completion := (\<lambda>n c. Inr (\<lparr>c_intent = Some ''greeting'',
      c_confidence = Some (9/10), c_requires_product_search = None,
      c_requires_agent_escalation = None\<rparr>, 42))\<rparr>"

definition text_then_image :: "node list" where
  "text_then_image =
     [graph_node ''start'' ''nlp'' (empty_config\<lparr>cfg_next := Some ''look''\<rparr>),
      graph_node ''look'' ''vision'' empty_config,
      graph_node ''agent_escalation'' ''escalation'' empty_config,
      graph_node ''response_sender'' ''action'' empty_config,
      graph_node ''end'' ''end'' empty_config]"

text \<open>A node that configures both confidence branches, and step results to route from it.\<close>

definition routing_graph :: "node list" where
  "routing_graph =
     [graph_node ''scorer'' ''nlp''
        (empty_config\<lparr>next_high_confidence := Some ''sure'', next_low_confidence := Some ''unsure''\<rparr>),
      graph_node ''sure'' ''handler'' empty_config,
      graph_node ''unsure'' ''handler'' empty_config,
      graph_node ''override'' ''handler'' empty_config,
      graph_node ''end'' ''end'' empty_config]"

definition routed :: "string option \<Rightarrow> rat option \<Rightarrow> step_result" where
  "routed nxt conf = (result_of empty_data)\<lparr>r_next := nxt, r_confidence := conf\<rparr>"

text \<open>A start node whose \<open>next\<close> names no node of the graph.\<close>

definition dangling :: "node list" where
  "dangling = [graph_node ''start'' ''trigger'' (empty_config\<lparr>cfg_next := Some ''nowhere''\<rparr>),
               graph_node ''end'' ''end'' empty_config]"

text \<open>Candidates a search step has left in \<open>lastResult\<close>, and a ranker node with \<open>top_n = 2\<close>.\<close>

definition bike :: "string \<Rightarrow> product" where
  "bike i = \<lparr>p_id = i, p_name = ''bike '' @ i, p_brand = None, p_model = None,
             relevance_score = None, p_reasoning = None\<rparr>"

definition after_search :: "product list \<Rightarrow> execution_context" where
  "after_search ps = (text_message ''a cheap bike'')
     \<lparr>lastResult := Some (found_result (empty_data\<lparr>d_products := Some ps\<rparr>) True)\<rparr>"

definition ranker :: node where
  "ranker = graph_node ''bike_ranker'' ''ml'' (empty_config\<lparr>top_n := Some 2\<rparr>)"

text \<open>
  Two graphs that start at an nlp node: one routes it to a router, the other follows the
  escalation node by a second nlp node.
\<close>

definition understand :: node where
  "understand = graph_node ''start'' ''nlp''
     (empty_config\<lparr>next_high_confidence := Some ''intent_router'',
                     next_low_confidence := Some ''intent_router''\<rparr>)"

definition support_graph :: "node list" where
  "support_graph =
     [understand,
      graph_node ''intent_router'' ''router''
        (empty_config\<lparr>routes := Some [\<lparr>ir_intent = Some ''general_question'',
                                            ir_next = Some ''clarify''\<rparr>],
                        fallback := Some ''clarify''\<rparr>),
      graph_node ''clarify'' ''handler'' (empty_config\<lparr>cfg_next := Some ''response_sender''\<rparr>),
      graph_node ''agent_escalation'' ''escalation'' empty_config,
      graph_node ''response_sender'' ''action'' empty_config,
      graph_node ''end'' ''end'' empty_config]"

definition handoff_graph :: "node list" where
  "handoff_graph =
     [graph_node ''start'' ''nlp'' (empty_config\<lparr>cfg_next := Some ''response_sender''\<rparr>),
      graph_node ''agent_escalation'' ''escalation''
        (empty_config\<lparr>cfg_next := Some ''handoff_summary''\<rparr>),
      graph_node ''handoff_summary'' ''nlp'' (empty_config\<lparr>cfg_next := Some ''response_sender''\<rparr>),
      graph_node ''response_sender'' ''action'' empty_config,
      graph_node ''end'' ''end'' empty_config]"


text \<open>The step result of the action handler when nothing but the agent hand-off is left to say.\<close>

definition connecting :: step_result where
  "connecting = result_of (empty_data\<lparr>d_finalResponse := Some agent_literal\<rparr>)"

text \<open>
  A start node whose \<open>next\<close> and \<open>next_found\<close> name no node of the graph and whose
  \<open>fallback\<close> names one.
\<close>

definition clarifying :: "node list" where
  "clarifying =
     [graph_node ''start'' ''trigger''
        (empty_config\<lparr>cfg_next := Some ''nowhere'', next_found := Some ''nowhere'',
                        fallback := Some ''clarify''\<rparr>),
      graph_node ''clarify'' ''handler'' empty_config,
      graph_node ''end'' ''end'' empty_config]"

text \<open>The recommender node, and an engine whose product search finds the given candidates.\<close>

definition stocked :: "product list \<Rightarrow> node list \<Rightarrow> engine" where
  "stocked ps ns = (offline ns)\<lparr>search_products := (\<lambda>q c. Inr ps)\<rparr>"

definition recommender :: node where
  "recommender = graph_node ''product_recommender'' ''ml'' empty_config"


section \<open>One pass of the loop, case by case\<close>

text \<open>
  Handlers assign to the context only \<open>messageType\<close>, \<open>user_message\<close> and
  \<open>transcribed\<close>: the fields the driver owns are as they were.
\<close>

lemma executeNode_driver_fields:
  assumes "executeNode E n ctx = Inr (r, ctx')"
  shows "iterationCount ctx' = iterationCount ctx" "maxIterations ctx' = maxIterations ctx"
    "workflowSteps ctx' = workflowSteps ctx" "allResults ctx' = allResults ctx"
    "tokensUsed ctx' = tokensUsed ctx" "errors ctx' = errors ctx"
    "visitedNodes ctx' = visitedNodes ctx" "lastResult ctx' = lastResult ctx"
    "finalResponse ctx' = finalResponse ctx"
  using assms
  by (auto simp: executeNode_def unchanged_def handleClassifier_def handleSpeech_def Let_def
      split: if_splits sum.splits option.splits)

lemma track_final_fields:
  "iterationCount (track_final r c) = iterationCount c"
  "maxIterations (track_final r c) = maxIterations c"
  "workflowSteps (track_final r c) = workflowSteps c"
  "allResults (track_final r c) = allResults c"
  "tokensUsed (track_final r c) = tokensUsed c"
  "errors (track_final r c) = errors c"
  "visitedNodes (track_final r c) = visitedNodes c"
  "lastResult (track_final r c) = lastResult c"
  by (simp_all add: track_final_def split: option.splits)

lemma results_of_append [simp]: "results_of (ds @ es) = results_of ds @ results_of es"
  by (induction ds rule: results_of.induct) auto

lemma traces_of_append [simp]: "traces_of (ds @ es) = traces_of ds @ traces_of es"
  by (induction ds rule: traces_of.induct) auto


lemma loop_body_Ceiling:
  assumes "maxIterations (executionContext s) \<le> iterationCount (executionContext s)"
  shows "loop_body E cur s = (Break, s\<lparr>executionContext := (bump (executionContext s))\<lparr>errors := errors (executionContext s) @
          [''Workflow loop detected after '' @ decimal (Suc (iterationCount (executionContext s))) @ '' iterations'']\<rparr>\<rparr>)"
  using assms unfolding loop_body_def Let_def bump_def by simp

lemma loop_body_Guard:
  assumes "iterationCount (executionContext s) < maxIterations (executionContext s)"
    and "3 < visits (n_id cur) (workflowSteps (executionContext s))"
  shows "loop_body E cur s = (Break, s\<lparr>currentNode := (case nodes_get (nodes E) ''response_sender'' of
                      Some r \<Rightarrow> Some r | None \<Rightarrow> nodes_get (nodes E) ''end''),
       executionContext := (bump (executionContext s))\<lparr>errors := errors (executionContext s) @
                   [''Infinite loop detected at node '' @ n_id cur]\<rparr>\<rparr>)"
  using assms unfolding loop_body_def Let_def bump_def visits_def by simp

lemma loop_body_Threw:
  assumes "iterationCount (executionContext s) < maxIterations (executionContext s)"
    and "visits (n_id cur) (workflowSteps (executionContext s)) \<le> 3"
    and "executeNode E cur (bump (executionContext s)) = Inl e"
  shows "loop_body E cur s = (Again, \<lparr>currentNode = on_fault E (executionContext s),
       executionContext = (bump (executionContext s))\<lparr>errors := errors (executionContext s) @
                      [''Fatal error in '' @ n_id cur @ '': '' @ message e]\<rparr>,
       dispatched = dispatched s @ [Threw cur e]\<rparr>)"
  using assms unfolding loop_body_def Let_def bump_def visits_def on_fault_def by simp

lemma loop_body_Failed:
  assumes "iterationCount (executionContext s) < maxIterations (executionContext s)"
    and "visits (n_id cur) (workflowSteps (executionContext s)) \<le> 3"
    and "executeNode E cur (bump (executionContext s)) = Inr (r, ctx2)"
    and "truthy (r_error r)"
  shows "loop_body E cur s = (Again, \<lparr>currentNode = on_fault E (executionContext s),
       executionContext = ctx2\<lparr>workflowSteps := workflowSteps (executionContext s) @ [trace_of cur r],
          errors := errors (executionContext s) @
                         [''Error in node '' @ n_id cur @ '' ('' @ n_name cur @ ''): ''
                            @ or_else (r_error r) []]\<rparr>,
       dispatched = dispatched s @ [Returned cur r]\<rparr>)"
proof -
  note flds = executeNode_driver_fields[OF assms(3)]
  have b: "workflowSteps (bump (executionContext s)) = workflowSteps (executionContext s)"
    "errors (bump (executionContext s)) = errors (executionContext s)"
    "visitedNodes (bump (executionContext s)) = visitedNodes (executionContext s)"
    "iterationCount (bump (executionContext s)) = Suc (iterationCount (executionContext s))"
    "maxIterations (bump (executionContext s)) = maxIterations (executionContext s)"
    by (simp_all add: bump_def)
  show ?thesis
    using assms(1,2,4) unfolding loop_body_def Let_def bump_def[symmetric] visits_def[symmetric] on_fault_def
    by (simp add: assms(3) flds b bump_def[symmetric] del: One_nat_def)
qed

lemma loop_body_Stored:
  assumes "iterationCount (executionContext s) < maxIterations (executionContext s)"
    and "visits (n_id cur) (workflowSteps (executionContext s)) \<le> 3"
    and "executeNode E cur (bump (executionContext s)) = Inr (r, ctx2)"
    and "\<not> truthy (r_error r)"
  shows "loop_body E cur s = (Again, \<lparr>currentNode = getNextNode (nodes E) cur r,
       executionContext = track_final r
          (ctx2\<lparr>workflowSteps := workflowSteps (executionContext s) @ [trace_of cur r],
                tokensUsed := tokensUsed (executionContext s) + r_tokensUsed r,
                lastResult := Some r,
                allResults := allResults (executionContext s) @ [r]\<rparr>),
       dispatched = dispatched s @ [Returned cur r]\<rparr>)"
proof -
  note flds = executeNode_driver_fields[OF assms(3)]
  have b: "workflowSteps (bump (executionContext s)) = workflowSteps (executionContext s)"
    "tokensUsed (bump (executionContext s)) = tokensUsed (executionContext s)"
    "allResults (bump (executionContext s)) = allResults (executionContext s)"
    "iterationCount (bump (executionContext s)) = Suc (iterationCount (executionContext s))"
    "maxIterations (bump (executionContext s)) = maxIterations (executionContext s)"
    by (simp_all add: bump_def)
  show ?thesis
    using assms(1,2,4) unfolding loop_body_def Let_def bump_def[symmetric] visits_def[symmetric]
    by (simp add: assms(3) flds b bump_def[symmetric] del: One_nat_def)
qed

lemma loop_body_cases [consumes 1, case_names Ceiling Guard Threw Failed Stored]:
  assumes "loop_body E cur s = (f, s')"
  obtains
    (Ceiling) "f = Break" "maxIterations (executionContext s) \<le> iterationCount (executionContext s)"
      "s' = s\<lparr>executionContext := (bump (executionContext s))\<lparr>errors := errors (executionContext s) @
          [''Workflow loop detected after '' @ decimal (Suc (iterationCount (executionContext s))) @ '' iterations'']\<rparr>\<rparr>"
  | (Guard) "f = Break" "iterationCount (executionContext s) < maxIterations (executionContext s)"
      "3 < visits (n_id cur) (workflowSteps (executionContext s))"
      "s' = s\<lparr>currentNode := (case nodes_get (nodes E) ''response_sender'' of
                      Some r \<Rightarrow> Some r | None \<Rightarrow> nodes_get (nodes E) ''end''),
       executionContext := (bump (executionContext s))\<lparr>errors := errors (executionContext s) @
                   [''Infinite loop detected at node '' @ n_id cur]\<rparr>\<rparr>"
  | (Threw) e where "f = Again" "iterationCount (executionContext s) < maxIterations (executionContext s)"
      "visits (n_id cur) (workflowSteps (executionContext s)) \<le> 3"
      "executeNode E cur (bump (executionContext s)) = Inl e"
      "s' = \<lparr>currentNode = on_fault E (executionContext s),
       executionContext = (bump (executionContext s))\<lparr>errors := errors (executionContext s) @
                      [''Fatal error in '' @ n_id cur @ '': '' @ message e]\<rparr>,
       dispatched = dispatched s @ [Threw cur e]\<rparr>"
  | (Failed) r ctx2 where "f = Again" "iterationCount (executionContext s) < maxIterations (executionContext s)"
      "visits (n_id cur) (workflowSteps (executionContext s)) \<le> 3"
      "executeNode E cur (bump (executionContext s)) = Inr (r, ctx2)" "truthy (r_error r)"
      "s' = \<lparr>currentNode = on_fault E (executionContext s),
       executionContext = ctx2\<lparr>workflowSteps := workflowSteps (executionContext s) @ [trace_of cur r],
          errors := errors (executionContext s) @
                         [''Error in node '' @ n_id cur @ '' ('' @ n_name cur @ ''): ''
                            @ or_else (r_error r) []]\<rparr>,
       dispatched = dispatched s @ [Returned cur r]\<rparr>"
  | (Stored) r ctx2 where "f = Again" "iterationCount (executionContext s) < maxIterations (executionContext s)"
      "visits (n_id cur) (workflowSteps (executionContext s)) \<le> 3"
      "executeNode E cur (bump (executionContext s)) = Inr (r, ctx2)" "\<not> truthy (r_error r)"
      "s' = \<lparr>currentNode = getNextNode (nodes E) cur r,
       executionContext = track_final r
          (ctx2\<lparr>workflowSteps := workflowSteps (executionContext s) @ [trace_of cur r],
                tokensUsed := tokensUsed (executionContext s) + r_tokensUsed r,
                lastResult := Some r,
                allResults := allResults (executionContext s) @ [r]\<rparr>),
       dispatched = dispatched s @ [Returned cur r]\<rparr>"
proof (cases "maxIterations (executionContext s) \<le> iterationCount (executionContext s)")
  case True
  from loop_body_Ceiling[OF True, of E cur] assms show ?thesis
    by (intro Ceiling[OF _ True]) simp_all
next
  case False
  then have lt: "iterationCount (executionContext s) < maxIterations (executionContext s)" by simp
  show ?thesis
  proof (cases "3 < visits (n_id cur) (workflowSteps (executionContext s))")
    case True
    from loop_body_Guard[OF lt True, of E] assms show ?thesis
      by (intro Guard[OF _ lt True]) simp_all
  next
    case False
    then have vs: "visits (n_id cur) (workflowSteps (executionContext s)) \<le> 3" by simp
    show ?thesis
    proof (cases "executeNode E cur (bump (executionContext s))")
      case (Inl e)
      from loop_body_Threw[OF lt vs Inl] assms show ?thesis
        by (intro Threw[OF _ lt vs Inl]) simp_all
    next
      case (Inr p)
      obtain r ctx2 where p: "p = (r, ctx2)" by (cases p)
      note ex = Inr[unfolded p]
      show ?thesis
      proof (cases "truthy (r_error r)")
        case True
        from loop_body_Failed[OF lt vs ex True] assms show ?thesis
          by (intro Failed[OF _ lt vs ex True]) simp_all
      next
        case False
        from loop_body_Stored[OF lt vs ex False] assms show ?thesis
          by (intro Stored[OF _ lt vs ex False]) simp_all
      qed
    qed
  qed
qed

lemma bump_fields:
  "iterationCount (bump c) = Suc (iterationCount c)"
  "maxIterations (bump c) = maxIterations c"
  "workflowSteps (bump c) = workflowSteps c"
  "allResults (bump c) = allResults c"
  "tokensUsed (bump c) = tokensUsed c"
  "errors (bump c) = errors c"
  "visitedNodes (bump c) = visitedNodes c"
  "lastResult (bump c) = lastResult c"
  "finalResponse (bump c) = finalResponse c"
  by (simp_all add: bump_def)

lemma run_loop_reachable: "reachable E c s \<Longrightarrow> reachable E c (run_loop E s)"
proof (induction E s rule: run_loop.induct)
  case (1 E s)
  show ?case
  proof (cases "running s")
    case None
    with "1.prems" show ?thesis by (simp add: run_loop.simps[of E s])
  next
    case (Some cur)
    obtain f s' where lb: "loop_body E cur s = (f, s')" by (cases "loop_body E cur s")
    have r': "reachable E c s'" using reachable.pass[OF "1.prems" Some lb] .
    show ?thesis
    proof (cases f)
      case Again
      with "1.IH"[OF Some lb[symmetric]] r' Some lb show ?thesis
        by (simp add: run_loop.simps[of E s])
    next
      case Break
      with r' Some lb show ?thesis by (simp add: run_loop.simps[of E s])
    qed
  qed
qed

lemma run_reachable: "reachable E c (run E c)"
  unfolding run_def by (rule run_loop_reachable) (rule reachable.start)

lemma reachable_ceiling:
  assumes "reachable E c s"
  shows "maxIterations (executionContext s) = 100
       \<and> length (dispatched s) \<le> iterationCount (executionContext s)
       \<and> length (dispatched s) \<le> 100"
  using assms
proof (induction rule: reachable.induct)
  case start
  show ?case by (simp add: initial_state_def)
next
  case (pass s cur f s')
  from pass.hyps(3) show ?case
  proof (cases rule: loop_body_cases)
    case Ceiling
    with pass.IH show ?thesis by (simp add: bump_fields)
  next
    case Guard
    with pass.IH show ?thesis by (simp add: bump_fields)
  next
    case (Threw e)
    with pass.IH show ?thesis by (simp add: bump_fields)
  next
    case (Failed r ctx2)
    with pass.IH executeNode_driver_fields(1,2)[OF Failed(4)] show ?thesis
      by (simp add: bump_fields)
  next
    case (Stored r ctx2)
    with pass.IH executeNode_driver_fields(1,2)[OF Stored(4)] show ?thesis
      by (simp add: bump_fields track_final_fields)
  qed
qed

lemma handleNLP_error_tokens:
  "handleNLP E n ctx = Inr r \<Longrightarrow> truthy (r_error r) \<Longrightarrow> r_tokensUsed r = 0"
  by (auto simp: handleNLP_def degraded_nlp_def Let_def truthy_def
      split: if_splits sum.splits prod.splits)

lemma handleRouter_error: "handleRouter n ctx = Inr r \<Longrightarrow> r_error r = None"
  by (auto simp: handleRouter_def result_of_def Let_def split: sum.splits option.splits)

lemma handleDatabase_tokens: "handleDatabase E n ctx = Inr r \<Longrightarrow> r_tokensUsed r = 0"
  by (auto simp: handleDatabase_def semanticProductSearch_def getProductPrice_def
      getOrderStatus_def logConversation_def visualProductSearch_def found_result_def
      result_of_def Let_def split: if_splits sum.splits option.splits)

lemma handleML_error: "handleML E n ctx = Inr r \<Longrightarrow> r_error r = None"
  by (auto simp: handleML_def ml_fallback_def Let_def
      split: if_splits sum.splits option.splits prod.splits)

lemma handleFormatter_error: "handleFormatter E n ctx = Inr r \<Longrightarrow> r_error r = None"
  by (auto simp: handleFormatter_def result_of_def Let_def split: sum.splits)

lemma handleOptimizer_error: "handleOptimizer n ctx = Inr r \<Longrightarrow> r_error r = None"
  by (auto simp: handleOptimizer_def result_of_def Let_def split: sum.splits)

lemma handleHandler_error: "handleHandler E n ctx = Inr r \<Longrightarrow> r_error r = None"
  by (auto simp: handleHandler_def result_of_def Let_def split: sum.splits)

lemma handleEscalation_error: "handleEscalation E n ctx = Inr r \<Longrightarrow> r_error r = None"
  by (auto simp: handleEscalation_def result_of_def Let_def split: sum.splits option.splits)

lemma handleAction_error: "handleAction E n ctx = Inr r \<Longrightarrow> r_error r = None"
  by (auto simp: handleAction_def result_of_def Let_def split: if_splits sum.splits)

lemma handleVision_error_tokens:
  "truthy (r_error (handleVision E n ctx)) \<Longrightarrow> r_tokensUsed (handleVision E n ctx) = 0"
  by (auto simp: handleVision_def error_result_def processImage_def Let_def truthy_def
      split: if_splits sum.splits option.splits prod.splits)

lemma handleSpeech_error_tokens:
  "handleSpeech E n ctx = (r, ctx') \<Longrightarrow> truthy (r_error r) \<Longrightarrow> r_tokensUsed r = 0"
  by (auto simp: handleSpeech_def error_result_def result_of_def Let_def truthy_def
      split: if_splits sum.splits option.splits)

lemma handleClassifier_error: "handleClassifier n ctx = Inr (r, ctx') \<Longrightarrow> r_error r = None"
  by (auto simp: handleClassifier_def result_of_def Let_def split: sum.splits option.splits)

lemma executeNode_error_tokens:
  assumes "executeNode E n ctx = Inr (r, ctx')" and "truthy (r_error r)"
  shows "r_tokensUsed r = 0"
proof -
  have nt: "\<not> truthy None" by (simp add: truthy_def)
  from assms show ?thesis
    unfolding executeNode_def unchanged_def
    by (auto simp: nt handleTrigger_def result_of_def
        split: if_splits sum.splits
        dest: handleNLP_error_tokens handleRouter_error handleDatabase_tokens handleML_error
          handleFormatter_error handleOptimizer_error handleHandler_error
          handleEscalation_error handleAction_error handleClassifier_error
          handleVision_error_tokens handleSpeech_error_tokens)
qed


section \<open>Invariants of a run\<close>

lemma reachable_stored:
  assumes "reachable E c s"
  shows "allResults (executionContext s)
           = filter (\<lambda>r. \<not> truthy (r_error r)) (results_of (dispatched s))
       \<and> workflowSteps (executionContext s) = traces_of (dispatched s)"
  using assms
proof (induction rule: reachable.induct)
  case start
  show ?case by (simp add: initial_state_def)
next
  case (pass s cur f s')
  from pass.hyps(3) show ?case
  proof (cases rule: loop_body_cases)
    case Ceiling
    with pass.IH show ?thesis by (simp add: bump_fields)
  next
    case Guard
    with pass.IH show ?thesis by (simp add: bump_fields)
  next
    case (Threw e)
    with pass.IH show ?thesis by (simp add: bump_fields)
  next
    case (Failed r ctx2)
    with pass.IH executeNode_driver_fields(4)[OF Failed(4)] show ?thesis
      by (simp add: bump_fields)
  next
    case (Stored r ctx2)
    with pass.IH show ?thesis
      by (simp add: bump_fields track_final_fields)
  qed
qed

lemma length_traces_of: "length (traces_of ds) = length (results_of ds)"
  by (induction ds rule: traces_of.induct) auto

lemma length_results_of: "length (results_of ds) \<le> length ds"
  by (induction ds rule: results_of.induct) auto

lemma reachable_tokens:
  assumes "reachable E c s"
  shows "tokensUsed (executionContext s) = sum_list (map r_tokensUsed (results_of (dispatched s)))"
  using assms
proof (induction rule: reachable.induct)
  case start
  show ?case by (simp add: initial_state_def)
next
  case (pass s cur f s')
  from pass.hyps(3) show ?case
  proof (cases rule: loop_body_cases)
    case Ceiling
    with pass.IH show ?thesis by (simp add: bump_fields)
  next
    case Guard
    with pass.IH show ?thesis by (simp add: bump_fields)
  next
    case (Threw e)
    with pass.IH show ?thesis by (simp add: bump_fields)
  next
    case (Failed r ctx2)
    with pass.IH executeNode_driver_fields(5)[OF Failed(4)]
      executeNode_error_tokens[OF Failed(4,5)] show ?thesis
      by (simp add: bump_fields)
  next
    case (Stored r ctx2)
    with pass.IH show ?thesis
      by (simp add: bump_fields track_final_fields)
  qed
qed



lemma track_final_truthy:
  "finalResponse c = None \<or> truthy (finalResponse c)
   \<Longrightarrow> finalResponse (track_final r c) = None \<or> truthy (finalResponse (track_final r c))"
  by (auto simp: track_final_def split: option.splits)

lemma reachable_final:
  assumes "reachable E c s"
  shows "finalResponse (executionContext s) = None \<or> truthy (finalResponse (executionContext s))"
  using assms
proof (induction rule: reachable.induct)
  case start
  show ?case by (simp add: initial_state_def)
next
  case (pass s cur f s')
  from pass.hyps(3) show ?case
  proof (cases rule: loop_body_cases)
    case Ceiling
    with pass.IH show ?thesis by (simp add: bump_fields)
  next
    case Guard
    with pass.IH show ?thesis by (simp add: bump_fields)
  next
    case (Threw e)
    with pass.IH show ?thesis by (simp add: bump_fields)
  next
    case (Failed r ctx2)
    with pass.IH executeNode_driver_fields(9)[OF Failed(4)] show ?thesis
      by (simp add: bump_fields)
  next
    case (Stored r ctx2)
    have "finalResponse (executionContext s') = finalResponse (track_final r
          (ctx2\<lparr>workflowSteps := workflowSteps (executionContext s) @ [trace_of cur r],
                tokensUsed := tokensUsed (executionContext s) + r_tokensUsed r,
                lastResult := Some r,
                allResults := allResults (executionContext s) @ [r]\<rparr>))"
      using Stored(6) by simp
    moreover have "finalResponse (ctx2\<lparr>workflowSteps := workflowSteps (executionContext s) @ [trace_of cur r],
                tokensUsed := tokensUsed (executionContext s) + r_tokensUsed r,
                lastResult := Some r,
                allResults := allResults (executionContext s) @ [r]\<rparr>) = finalResponse (executionContext s)"
      using executeNode_driver_fields(9)[OF Stored(4)] by (simp add: bump_fields)
    ultimately show ?thesis
      using track_final_truthy[of "ctx2\<lparr>workflowSteps := workflowSteps (executionContext s) @ [trace_of cur r],
                tokensUsed := tokensUsed (executionContext s) + r_tokensUsed r,
                lastResult := Some r,
                allResults := allResults (executionContext s) @ [r]\<rparr>" r] pass.IH
      by simp
  qed
qed

lemma test_chat_response_nonempty: "test_chat_response result \<noteq> []"
  by (auto simp: test_chat_response_def Let_def apology_def truthy_def or_else_def
      split: option.splits)




lemma scan_back_truthy: "scan_back pick rs = None \<or> truthy (scan_back pick rs)"
  by (induction rs) (auto split: option.splits)

lemma handleAction_nonempty:
  assumes "handleAction E n ctx = Inr r"
  shows "\<exists>d f. r_data r = Some d \<and> d_finalResponse d = Some f \<and> f \<noteq> []"
proof -
  let ?r1 = "case last_data ctx of None \<Rightarrow> None | Some d \<Rightarrow> action_pick d"
  let ?r3 = "if \<not> truthy ?r1 then scan_back action_pick (rev (allResults ctx)) else ?r1"
  show ?thesis
  proof (cases "truthy ?r3")
    case True
    then obtain f where f: "?r3 = Some f" "f \<noteq> []"
      by (auto simp: truthy_def split: option.splits)
    from assms True have "r = result_of (empty_data\<lparr>d_finalResponse := ?r3\<rparr>)"
      by (simp add: handleAction_def Let_def)
    with f show ?thesis by (simp add: result_of_def)
  next
    case False
    have ne: "or_else (Some t) apology \<noteq> []" for t
      by (simp add: or_else_def apology_def)
    from assms False obtain t where "r = result_of (empty_data\<lparr>d_finalResponse :=
                            Some (or_else (Some t) apology)\<rparr>)"
      by (auto simp: handleAction_def Let_def split: sum.splits if_splits)
    with ne[of t] show ?thesis by (simp add: result_of_def)
  qed
qed


text \<open>
  The \<open>finalResponse\<close> of the context is, at every point of a run, the text of the latest
  stored step that has one.
\<close>

lemma reachable_final_exact:
  assumes "reachable E c s"
  shows "finalResponse (executionContext s)
           = scan_back tracked_text (rev (allResults (executionContext s)))"
  using assms
proof (induction rule: reachable.induct)
  case start
  show ?case by (simp add: initial_state_def)
next
  case (pass s cur f s')
  from pass.hyps(3) show ?case
  proof (cases rule: loop_body_cases)
    case Ceiling
    with pass.IH show ?thesis by (simp add: bump_fields)
  next
    case Guard
    with pass.IH show ?thesis by (simp add: bump_fields)
  next
    case (Threw e)
    with pass.IH show ?thesis by (simp add: bump_fields)
  next
    case (Failed r ctx2)
    with pass.IH executeNode_driver_fields(4,9)[OF Failed(4)] show ?thesis
      by (simp add: bump_fields)
  next
    case (Stored r ctx2)
    let ?x = "ctx2\<lparr>workflowSteps := workflowSteps (executionContext s) @ [trace_of cur r],
                tokensUsed := tokensUsed (executionContext s) + r_tokensUsed r,
                lastResult := Some r,
                allResults := allResults (executionContext s) @ [r]\<rparr>"
    have x: "finalResponse ?x = scan_back tracked_text (rev (allResults (executionContext s)))"
      using executeNode_driver_fields(9)[OF Stored(4)] pass.IH by (simp add: bump_fields)
    have e: "executionContext s' = track_final r ?x" using Stored(6) by simp
    have a: "allResults (track_final r ?x) = allResults (executionContext s) @ [r]"
      by (simp add: track_final_fields)
    have "finalResponse (track_final r ?x)
            = scan_back tracked_text (r # rev (allResults (executionContext s)))"
      using x by (simp add: track_final_def tracked_text_def split: option.splits)
    then show ?thesis by (simp add: e a)
  qed
qed

lemma reachable_origin:
  assumes "reachable E c s" and "Returned n r \<in> set (dispatched s)"
  shows "\<exists>ctx ctx'. executeNode E n ctx = Inr (r, ctx')"
  using assms
proof (induction rule: reachable.induct)
  case start
  then show ?case by (simp add: initial_state_def)
next
  case (pass s cur f s')
  from pass.hyps(3) show ?case
  proof (cases rule: loop_body_cases)
    case Ceiling
    with pass.IH pass.prems show ?thesis by simp
  next
    case Guard
    with pass.IH pass.prems show ?thesis by simp
  next
    case (Threw e)
    with pass.IH pass.prems show ?thesis by simp
  next
    case (Failed r' ctx2)
    with pass.IH pass.prems show ?thesis by auto
  next
    case (Stored r' ctx2)
    with pass.IH pass.prems show ?thesis by auto
  qed
qed

lemma returned_in_results: "Returned n r \<in> set ds \<Longrightarrow> r \<in> set (results_of ds)"
  by (induction ds rule: results_of.induct) auto

lemma scan_back_finds:
  "r \<in> set rs \<Longrightarrow> r_data r = Some d \<Longrightarrow> truthy (pick d) \<Longrightarrow> truthy (scan_back pick rs)"
  by (induction rs) (auto split: option.splits)

lemma action_step_answers:
  assumes "reachable E c s" and "Returned n r \<in> set (dispatched s)" and "n_type n = ''action''"
  shows "truthy (finalResponse (executionContext s))"
proof -
  from reachable_origin[OF assms(1,2)] obtain ctx ctx' where
    "executeNode E n ctx = Inr (r, ctx')" by blast
  with assms(3) have h: "handleAction E n ctx = Inr r"
    by (auto simp: executeNode_def unchanged_def split: sum.splits)
  from handleAction_nonempty[OF h] obtain d f where
    d: "r_data r = Some d" "d_finalResponse d = Some f" "f \<noteq> []" by blast
  have ne: "\<not> truthy (r_error r)"
    using handleAction_error[OF h] by (simp add: truthy_def)
  have "r \<in> set (allResults (executionContext s))"
    using reachable_stored[OF assms(1)] returned_in_results[OF assms(2)] ne by simp
  then have i: "r \<in> set (rev (allResults (executionContext s)))" by simp
  have tt: "truthy (tracked_text d)"
    using d by (simp add: tracked_text_def js_or_def truthy_def)
  have "truthy (scan_back tracked_text (rev (allResults (executionContext s))))"
    using scan_back_finds[of r "rev (allResults (executionContext s))" d tracked_text] i d(1) tt
    by simp
  then show ?thesis by (simp add: reachable_final_exact[OF assms(1)])
qed


section \<open>Properties of the run driver\<close>

text \<open>
  C2, against the claim as stated: a run through a cycle of two trigger nodes is ended by the
  repeated-visit guard, which leaves the loop without dispatching the response node, and the
  context \<open>execute\<close> returns has no \<open>finalResponse\<close>, neither of its own nor in its
  last result.
\<close>

theorem final_response_counterexample:
  "\<not> truthy (finalResponse (execute (offline two_cycle) (text_message ''hi'')))
   \<and> \<not> truthy (last_field (execute (offline two_cycle) (text_message ''hi'')) d_finalResponse)
   \<and> errors (execute (offline two_cycle) (text_message ''hi''))
       = [''Infinite loop detected at node start'']"
  by code_simp

text \<open>
  C2, as amended: \<open>execute\<close> returns (the loop is a total function) after at most 100
  dispatches. The \<open>finalResponse\<close> of the context it returns is exactly the text
  (\<open>finalResponse\<close>, else \<open>optimized\<close>, else \<open>response\<close>) of the latest stored step
  that has one, so it is unset only when no stored step of the run has such a text, and
  otherwise non-empty. Whenever an action step returned in the run, the \<open>finalResponse\<close>
  of the returned context is non-empty; every step result of the action handler carries a
  non-empty \<open>finalResponse\<close>; and the response the caller extracts from the returned
  context is never empty.
\<close>

theorem execute_bounded_and_answered:
  "length (dispatched (run E c)) \<le> 100
   \<and> finalResponse (execute E c) = scan_back tracked_text (rev (allResults (execute E c)))
   \<and> (finalResponse (execute E c) = None \<or> truthy (finalResponse (execute E c)))
   \<and> (Returned m q \<in> set (dispatched (run E c)) \<and> n_type m = ''action''
        \<longrightarrow> truthy (finalResponse (execute E c)))
   \<and> (handleAction E n ctx = Inr r
        \<longrightarrow> (\<exists>d f. r_data r = Some d \<and> d_finalResponse d = Some f \<and> f \<noteq> []))
   \<and> test_chat_response (execute E c) \<noteq> []"
  using reachable_ceiling[OF run_reachable, of E c] reachable_final[OF run_reachable, of E c]
    reachable_final_exact[OF run_reachable, of E c]
    action_step_answers[OF run_reachable, of m q E c]
    test_chat_response_nonempty[of "execute E c"] handleAction_nonempty[of E n ctx r]
  by (simp add: execute_def)

text \<open>
  The amended C2 on a run that reaches the response node: three dispatches, the last of them
  the action step, whose text is the \<open>finalResponse\<close> of the returned context and the
  response of the caller.
\<close>

theorem execute_bounded_and_answered_witness:
  "length (dispatched (run (offline support_graph) (text_message ''hi''))) = 3
   \<and> last (dispatched (run (offline support_graph) (text_message ''hi'')))
       = Returned (graph_node ''response_sender'' ''action'' empty_config) connecting
   \<and> handleAction (offline support_graph)
        (graph_node ''response_sender'' ''action'' empty_config)
        (execute (offline support_graph) (text_message ''hi'')) = Inr connecting
   \<and> r_data connecting = Some (empty_data\<lparr>d_finalResponse := Some agent_literal\<rparr>)
   \<and> finalResponse (execute (offline support_graph) (text_message ''hi'')) = Some agent_literal
   \<and> truthy (finalResponse (execute (offline support_graph) (text_message ''hi'')))
   \<and> test_chat_response (execute (offline support_graph) (text_message ''hi'')) = agent_literal"
proof -
  let ?E = "offline support_graph"
  let ?c = "text_message ''hi''"
  let ?n = "graph_node ''response_sender'' ''action'' empty_config"
  have a: "length (dispatched (run ?E ?c)) = 3" by code_simp
  have l: "last (dispatched (run ?E ?c)) = Returned ?n connecting" by code_simp
  have "dispatched (run ?E ?c) \<noteq> []" using a by auto
  from last_in_set[OF this] l have m: "Returned ?n connecting \<in> set (dispatched (run ?E ?c))"
    by simp
  have ty: "n_type ?n = ''action''" by (simp add: graph_node_def)
  have h: "handleAction ?E ?n (execute ?E ?c) = Inr connecting" by code_simp
  have sc: "scan_back tracked_text (rev (allResults (execute ?E ?c))) = Some agent_literal"
    by code_simp
  have t: "test_chat_response (execute ?E ?c) = agent_literal" by code_simp
  have d: "r_data connecting = Some (empty_data\<lparr>d_finalResponse := Some agent_literal\<rparr>)"
    by (simp add: connecting_def result_of_def)
  note w = execute_bounded_and_answered[where E = ?E and c = ?c and m = ?n and q = connecting
      and n = ?n and ctx = "execute ?E ?c" and r = connecting]
  from w have "finalResponse (execute ?E ?c)
      = scan_back tracked_text (rev (allResults (execute ?E ?c)))" by blast
  with sc have f: "finalResponse (execute ?E ?c) = Some agent_literal" by simp
  from w m ty have g: "truthy (finalResponse (execute ?E ?c))" by blast
  from w h have "\<exists>d f. r_data connecting = Some d \<and> d_finalResponse d = Some f \<and> f \<noteq> []"
    by blast
  with a l h d f g t show ?thesis by simp
qed

text \<open>
  C3, against the claim as stated: when the only node fails (a vision node without an image
  URL), one dispatch has been executed and traced, but \<open>allResults\<close> is empty.
\<close>

theorem stored_results_counterexample:
  "\<not> (length (allResults (execute (offline image_only) (text_message ''hi'')))
        = length (dispatched (run (offline image_only) (text_message ''hi'')))
      \<and> length (workflowSteps (execute (offline image_only) (text_message ''hi'')))
        \<le> length (allResults (execute (offline image_only) (text_message ''hi''))))"
  by code_simp

text \<open>
  C3, as amended: at every point of a run \<open>allResults\<close> holds exactly the step results that
  carried no error, in order; \<open>workflowSteps\<close> has one entry for every dispatch that returned a
  step result (with or without an error); so \<open>allResults\<close> is never longer than
  \<open>workflowSteps\<close>, which is never longer than the number of dispatches.
\<close>

theorem stored_results_are_error_free_steps:
  assumes "reachable E c s"
  shows "allResults (executionContext s)
           = filter (\<lambda>r. \<not> truthy (r_error r)) (results_of (dispatched s))
       \<and> length (workflowSteps (executionContext s)) = length (results_of (dispatched s))
       \<and> length (allResults (executionContext s)) \<le> length (workflowSteps (executionContext s))
       \<and> length (workflowSteps (executionContext s)) \<le> length (dispatched s)"
proof -
  note st = reachable_stored[OF assms]
  have "length (filter (\<lambda>r. \<not> truthy (r_error r)) (results_of (dispatched s)))
          \<le> length (results_of (dispatched s))" by simp
  with st show ?thesis
    by (simp add: length_traces_of length_results_of)
qed


text \<open>The amended C3 on a run whose second step fails: four dispatches, four traces, three stored results.\<close>

theorem stored_results_are_error_free_steps_witness:
  "allResults (execute (understood text_then_image) (text_message ''hi''))
     = filter (\<lambda>r. \<not> truthy (r_error r))
         (results_of (dispatched (run (understood text_then_image) (text_message ''hi''))))
   \<and> length (allResults (execute (understood text_then_image) (text_message ''hi''))) = 3
   \<and> length (workflowSteps (execute (understood text_then_image) (text_message ''hi''))) = 4
   \<and> length (dispatched (run (understood text_then_image) (text_message ''hi''))) = 4"
proof -
  have "reachable (understood text_then_image) (text_message ''hi'')
     (run (understood text_then_image) (text_message ''hi''))" by (rule run_reachable)
  from stored_results_are_error_free_steps[OF this]
  have "allResults (execute (understood text_then_image) (text_message ''hi''))
     = filter (\<lambda>r. \<not> truthy (r_error r))
         (results_of (dispatched (run (understood text_then_image) (text_message ''hi''))))"
    by (simp add: execute_def)
  moreover have "length (allResults (execute (understood text_then_image) (text_message ''hi''))) = 3"
    by code_simp
  moreover have "length (workflowSteps (execute (understood text_then_image) (text_message ''hi''))) = 4"
    by code_simp
  moreover have "length (dispatched (run (understood text_then_image) (text_message ''hi''))) = 4"
    by code_simp
  ultimately show ?thesis by simp
qed





text \<open>
  C9: at the end of every run the \<open>tokensUsed\<close> of the context is the sum of the
  \<open>tokensUsed\<close> of all step results the dispatches of the run produced, those with an error
  included (the driver does not add the tokens of a failed step, and every handler reports
  zero tokens with an error).
\<close>

theorem tokens_accumulate_every_step:
  "tokensUsed (execute E c) = sum_list (map r_tokensUsed (results_of (dispatched (run E c))))"
  unfolding execute_def by (rule reachable_tokens[OF run_reachable])


text \<open>C9 on a run whose first step costs 42 tokens and whose second step fails.\<close>

theorem tokens_accumulate_every_step_witness:
  "tokensUsed (execute (understood text_then_image) (text_message ''hi'')) = 42
   \<and> map r_tokensUsed (results_of (dispatched (run (understood text_then_image) (text_message ''hi''))))
       = [42, 0, 0, 0]"
proof -
  have "map r_tokensUsed (results_of (dispatched (run (understood text_then_image) (text_message ''hi''))))
       = [42, 0, 0, 0]" by code_simp
  with tokens_accumulate_every_step[of "understood text_then_image" "text_message ''hi''"]
  show ?thesis by simp
qed


section \<open>Properties of next-node resolution\<close>

lemma route_to_simps:
  "route_to ns cond None = None"
  "route_to ns False ref = None"
  "nodes_get ns k = None \<Longrightarrow> route_to ns cond (Some k) = None"
  "k \<noteq> [] \<Longrightarrow> route_to ns True (Some k) = nodes_get ns k"
  by (simp_all add: route_to_def split: option.splits)

text \<open>
  C6: an explicit \<open>next\<close> of the step result whose target exists is returned whatever the
  node's config holds; and when no earlier priority resolves, a confidence of exactly 0.7 with
  a resolvable \<open>next_high_confidence\<close> takes the high-confidence branch.
\<close>

theorem explicit_next_first_high_branch_inclusive:
  "(r_next result = Some t \<and> t \<noteq> [] \<and> nodes_get ns t = Some n
      \<longrightarrow> getNextNode ns cur result = Some n)
   \<and> (route_to ns True (r_next result) = None
        \<and> route_to ns True (cfg_next (config_of cur)) = None
        \<and> r_confidence result = Some (7/10)
        \<and> next_high_confidence (config_of cur) = Some h \<and> h \<noteq> []
        \<and> nodes_get ns h = Some m
      \<longrightarrow> getNextNode ns cur result = Some m)"
  by (simp add: getNextNode_def Let_def route_to_simps conf_ge_def)

text \<open>
  C6 on a node that configures both confidence branches: an explicit \<open>next\<close> wins over
  them, and without it a confidence of 0.7 goes to the high branch.
\<close>

theorem explicit_next_first_high_branch_inclusive_witness:
  "getNextNode routing_graph (graph_node ''scorer'' ''nlp''
        (empty_config\<lparr>next_high_confidence := Some ''sure'', next_low_confidence := Some ''unsure''\<rparr>))
      (routed (Some ''override'') (Some (7/10)))
     = Some (graph_node ''override'' ''handler'' empty_config)
   \<and> getNextNode routing_graph (graph_node ''scorer'' ''nlp''
        (empty_config\<lparr>next_high_confidence := Some ''sure'', next_low_confidence := Some ''unsure''\<rparr>))
      (routed None (Some (7/10)))
     = Some (graph_node ''sure'' ''handler'' empty_config)"
proof -
  let ?cur = "graph_node ''scorer'' ''nlp''
        (empty_config\<lparr>next_high_confidence := Some ''sure'', next_low_confidence := Some ''unsure''\<rparr>)"
  have g1: "nodes_get routing_graph ''override'' = Some (graph_node ''override'' ''handler'' empty_config)"
    by (simp add: routing_graph_def nodes_get_def graph_node_def)
  have g2: "nodes_get routing_graph ''sure'' = Some (graph_node ''sure'' ''handler'' empty_config)"
    by (simp add: routing_graph_def nodes_get_def graph_node_def)
  have c: "cfg_next (config_of ?cur) = None" "next_high_confidence (config_of ?cur) = Some ''sure''"
    by (simp_all add: config_of_def graph_node_def empty_config_def)
  have a: "getNextNode routing_graph ?cur (routed (Some ''override'') (Some (7/10)))
     = Some (graph_node ''override'' ''handler'' empty_config)"
    using explicit_next_first_high_branch_inclusive[where result = "routed (Some ''override'') (Some (7/10))"
        and t = "''override''" and ns = routing_graph and cur = ?cur
        and n = "graph_node ''override'' ''handler'' empty_config"] g1
    by (simp add: routed_def)
  have b: "getNextNode routing_graph ?cur (routed None (Some (7/10)))
     = Some (graph_node ''sure'' ''handler'' empty_config)"
    using explicit_next_first_high_branch_inclusive[where result = "routed None (Some (7/10))"
        and ns = routing_graph and cur = ?cur and h = "''sure''"
        and m = "graph_node ''sure'' ''handler'' empty_config"] g2
    by (simp add: routed_def c route_to_simps)
  from a b show ?thesis by simp
qed

text \<open>
  C10: for a step result without a confidence value neither confidence branch is taken: the
  resolver answers as if the node configured neither, and when the node has no other routing
  field the answer is the explicit \<open>next\<close> of the result, if it resolves, and the \<open>end\<close>
  node otherwise.
\<close>

theorem undefined_confidence_takes_neither_branch:
  "r_confidence result = None \<longrightarrow>
     getNextNode ns cur result
       = getNextNode ns (cur\<lparr>n_config := Some ((config_of cur)\<lparr>next_high_confidence := None,
                                 next_low_confidence := None\<rparr>)\<rparr>) result
     \<and> (cfg_next (config_of cur) = None \<and> next_found (config_of cur) = None
          \<and> next_not_found (config_of cur) = None \<and> fallback (config_of cur) = None
        \<longrightarrow> getNextNode ns cur result
             = (case route_to ns True (r_next result) of Some n \<Rightarrow> Some n
                | None \<Rightarrow> nodes_get ns ''end''))"
proof (intro impI conjI)
  assume u: "r_confidence result = None"
  show "getNextNode ns cur result
       = getNextNode ns (cur\<lparr>n_config := Some ((config_of cur)\<lparr>next_high_confidence := None,
                                 next_low_confidence := None\<rparr>)\<rparr>) result"
    by (simp add: getNextNode_def Let_def u route_to_simps conf_ge_def conf_lt_def config_of_def
        cong: option.case_cong)
  assume "cfg_next (config_of cur) = None \<and> next_found (config_of cur) = None
          \<and> next_not_found (config_of cur) = None \<and> fallback (config_of cur) = None"
  then show "getNextNode ns cur result
             = (case route_to ns True (r_next result) of Some n \<Rightarrow> Some n
                | None \<Rightarrow> nodes_get ns ''end'')"
    by (simp add: getNextNode_def Let_def u route_to_simps conf_ge_def conf_lt_def
        cong: option.case_cong)
qed

text \<open>C10 on a node with both confidence branches and a result without confidence: the \<open>end\<close> node.\<close>

theorem undefined_confidence_takes_neither_branch_witness:
  "getNextNode routing_graph (graph_node ''scorer'' ''nlp''
        (empty_config\<lparr>next_high_confidence := Some ''sure'', next_low_confidence := Some ''unsure''\<rparr>))
      (routed None None)
     = Some (graph_node ''end'' ''end'' empty_config)"
proof -
  let ?cur = "graph_node ''scorer'' ''nlp''
        (empty_config\<lparr>next_high_confidence := Some ''sure'', next_low_confidence := Some ''unsure''\<rparr>)"
  have g: "nodes_get routing_graph ''end'' = Some (graph_node ''end'' ''end'' empty_config)"
    by (simp add: routing_graph_def nodes_get_def graph_node_def)
  have c: "cfg_next (config_of ?cur) = None \<and> next_found (config_of ?cur) = None
       \<and> next_not_found (config_of ?cur) = None \<and> fallback (config_of ?cur) = None"
    by (simp add: config_of_def graph_node_def empty_config_def)
  have u: "r_confidence (routed None None) = None" by (simp add: routed_def)
  have "getNextNode routing_graph ?cur (routed None None)
      = (case route_to routing_graph True (r_next (routed None None)) of Some n \<Rightarrow> Some n
         | None \<Rightarrow> nodes_get routing_graph ''end'')"
    using undefined_confidence_takes_neither_branch[where result = "routed None None"
        and ns = routing_graph and cur = ?cur, THEN mp, OF u, THEN conjunct2, THEN mp, OF c] .
  then show ?thesis by (simp add: routed_def route_to_simps g)
qed


section \<open>Resolution of references to missing nodes\<close>

lemma run_loop_stop: "running s = None \<Longrightarrow> run_loop E s = s"
  by (simp add: run_loop.simps[of E s])

lemma run_loop_again:
  "running s = Some cur \<Longrightarrow> loop_body E cur s = (Again, s') \<Longrightarrow> run_loop E s = run_loop E s'"
  by (simp add: run_loop.simps[of E s])

lemma run_loop_break:
  "running s = Some cur \<Longrightarrow> loop_body E cur s = (Break, s') \<Longrightarrow> run_loop E s = s'"
  by (simp add: run_loop.simps[of E s])

lemma only_next_unresolved:
  assumes "nodes_get ns k = None" and "r_next result = None"
    and "n_config cur = Some (empty_config\<lparr>cfg_next := Some k\<rparr>)"
  shows "getNextNode ns cur result = nodes_get ns ''end''"
  using assms
  by (simp add: getNextNode_def Let_def config_of_def route_to_simps empty_config_def)

lemma run_single_trigger:
  assumes st: "nodes_get (nodes E) ''start'' = Some n" and ty: "n_type n = ''trigger''"
    and nx: "getNextNode (nodes E) n (handleTrigger n (bump (executionContext (initial_state E c))))
              = nodes_get (nodes E) ''end''"
    and en: "\<forall>e. nodes_get (nodes E) ''end'' = Some e \<longrightarrow> n_type e = ''end''"
  shows "errors (execute E c) = [] \<and> currentNode (run E c) = nodes_get (nodes E) ''end''
       \<and> dispatched (run E c)
           = [Returned n (handleTrigger n (bump (executionContext (initial_state E c))))]"
proof -
  let ?s0 = "initial_state E c"
  let ?r = "handleTrigger n (bump (executionContext ?s0))"
  have r0: "running ?s0 = Some n"
    using st ty by (simp add: running_def initial_state_def)
  have ex: "executeNode E n (bump (executionContext ?s0)) = Inr (?r, bump (executionContext ?s0))"
    using ty by (simp add: executeNode_def)
  have ne: "\<not> truthy (r_error ?r)"
    by (simp add: handleTrigger_def result_of_def truthy_def)
  have i0: "iterationCount (executionContext ?s0) < maxIterations (executionContext ?s0)"
    by (simp add: initial_state_def)
  have v0: "visits (n_id n) (workflowSteps (executionContext ?s0)) \<le> 3"
    by (simp add: initial_state_def visits_def)
  note lb = loop_body_Stored[OF i0 v0 ex ne]
  let ?s1 = "\<lparr>currentNode = getNextNode (nodes E) n ?r,
       executionContext = track_final ?r
          ((bump (executionContext ?s0))\<lparr>workflowSteps := workflowSteps (executionContext ?s0) @ [trace_of n ?r],
                tokensUsed := tokensUsed (executionContext ?s0) + r_tokensUsed ?r,
                lastResult := Some ?r,
                allResults := allResults (executionContext ?s0) @ [?r]\<rparr>),
       dispatched = dispatched ?s0 @ [Returned n ?r]\<rparr>"
  have r1: "running ?s1 = None"
    using en by (auto simp: running_def nx split: option.splits)
  have "run_loop E ?s0 = run_loop E ?s1" by (rule run_loop_again[OF r0 lb])
  also have "\<dots> = ?s1" by (rule run_loop_stop[OF r1])
  finally have "run E c = ?s1" unfolding run_def .
  moreover have "errors (executionContext ?s0) = []" "dispatched ?s0 = []"
    by (simp_all add: initial_state_def)
  ultimately show ?thesis
    by (simp add: execute_def track_final_fields bump_fields nx)
qed

text \<open>
  The resolver of the source is the ordered chain: it tries the seven references in order and
  returns the first applicable one that names a node.
\<close>

lemma first_resolved_route:
  "first_resolved ns ((applies, ref) # rest)
     = (case route_to ns applies ref of Some n \<Rightarrow> Some n | None \<Rightarrow> first_resolved ns rest)"
  by (simp add: route_to_def split: option.splits)

lemma getNextNode_in_order:
  "getNextNode ns cur result = first_resolved ns (priority_chain cur result)"
  by (simp only: getNextNode_def Let_def priority_chain_def first_resolved_route
      first_resolved.simps(1) cong: option.case_cong)

lemma first_resolved_absent:
  "ref \<in> {None, Some k} \<Longrightarrow> nodes_get ns k = None
   \<Longrightarrow> first_resolved ns ((applies, ref) # rest) = first_resolved ns rest"
  by auto

lemma first_resolved_off:
  "first_resolved ns ((False, ref) # rest) = first_resolved ns rest"
  by (simp split: option.splits)

lemma first_resolved_hit:
  "applies \<Longrightarrow> f \<noteq> [] \<Longrightarrow> nodes_get ns f = Some m
   \<Longrightarrow> first_resolved ns ((applies, Some f) # rest) = Some m"
  by simp

lemma pass_to_end:
  assumes r0: "running s = Some cur"
    and i0: "iterationCount (executionContext s) < maxIterations (executionContext s)"
    and v0: "visits (n_id cur) (workflowSteps (executionContext s)) \<le> 3"
    and ex: "executeNode E cur (bump (executionContext s)) = Inr (r, ctx2)"
    and ne: "\<not> truthy (r_error r)"
    and nx: "getNextNode (nodes E) cur r = nodes_get (nodes E) ''end''"
    and en: "\<forall>e. nodes_get (nodes E) ''end'' = Some e \<longrightarrow> n_type e = ''end''"
  shows "currentNode (run_loop E s) = nodes_get (nodes E) ''end''
       \<and> errors (executionContext (run_loop E s)) = errors (executionContext s)
       \<and> dispatched (run_loop E s) = dispatched s @ [Returned cur r]"
proof -
  note lb = loop_body_Stored[OF i0 v0 ex ne]
  let ?s1 = "\<lparr>currentNode = getNextNode (nodes E) cur r,
       executionContext = track_final r
          (ctx2\<lparr>workflowSteps := workflowSteps (executionContext s) @ [trace_of cur r],
                tokensUsed := tokensUsed (executionContext s) + r_tokensUsed r,
                lastResult := Some r,
                allResults := allResults (executionContext s) @ [r]\<rparr>),
       dispatched = dispatched s @ [Returned cur r]\<rparr>"
  have r1: "running ?s1 = None"
    using en by (auto simp: running_def nx split: option.splits)
  have "run_loop E s = run_loop E ?s1" by (rule run_loop_again[OF r0 lb])
  also have "\<dots> = ?s1" by (rule run_loop_stop[OF r1])
  finally have "run_loop E s = ?s1" .
  moreover have "errors ctx2 = errors (executionContext s)"
    using executeNode_driver_fields(6)[OF ex] by (simp add: bump_fields)
  ultimately show ?thesis
    by (simp add: track_final_fields nx)
qed

text \<open>
  C7: a reference to a node id that is not in the graph is skipped without an error, at every
  priority, and the chain continues: the resolver answers as if that field were not set; it is
  the ordered chain, in which a dangling reference at the head leaves the answer of the rest;
  when every earlier reference is unset or dangling, the first later reference that applies
  and names a node is the answer (for each of the six later priorities), and the \<open>end\<close>
  node when all seven are unset or dangling. A node whose only routing field is a \<open>next\<close>
  naming no node resolves to the \<open>end\<close> node: a pass of the loop over such a node, from
  any state of a run, stores the step and ends the run there with no error added, and a run
  that starts at such a trigger node dispatches that node alone and ends at the \<open>end\<close>
  node with no error recorded.
\<close>

theorem unresolvable_references_are_skipped:
  assumes "nodes_get ns k = None"
  shows "getNextNode ns cur (result\<lparr>r_next := Some k\<rparr>) = getNextNode ns cur (result\<lparr>r_next := None\<rparr>)
   \<and> getNextNode ns (cur\<lparr>n_config := Some (cf\<lparr>cfg_next := Some k\<rparr>)\<rparr>) result
       = getNextNode ns (cur\<lparr>n_config := Some (cf\<lparr>cfg_next := None\<rparr>)\<rparr>) result
   \<and> getNextNode ns (cur\<lparr>n_config := Some (cf\<lparr>next_high_confidence := Some k\<rparr>)\<rparr>) result
       = getNextNode ns (cur\<lparr>n_config := Some (cf\<lparr>next_high_confidence := None\<rparr>)\<rparr>) result
   \<and> getNextNode ns (cur\<lparr>n_config := Some (cf\<lparr>next_low_confidence := Some k\<rparr>)\<rparr>) result
       = getNextNode ns (cur\<lparr>n_config := Some (cf\<lparr>next_low_confidence := None\<rparr>)\<rparr>) result
   \<and> getNextNode ns (cur\<lparr>n_config := Some (cf\<lparr>next_found := Some k\<rparr>)\<rparr>) result
       = getNextNode ns (cur\<lparr>n_config := Some (cf\<lparr>next_found := None\<rparr>)\<rparr>) result
   \<and> getNextNode ns (cur\<lparr>n_config := Some (cf\<lparr>next_not_found := Some k\<rparr>)\<rparr>) result
       = getNextNode ns (cur\<lparr>n_config := Some (cf\<lparr>next_not_found := None\<rparr>)\<rparr>) result
   \<and> getNextNode ns (cur\<lparr>n_config := Some (cf\<lparr>fallback := Some k\<rparr>)\<rparr>) result
       = getNextNode ns (cur\<lparr>n_config := Some (cf\<lparr>fallback := None\<rparr>)\<rparr>) result
   \<and> getNextNode ns cur result = first_resolved ns (priority_chain cur result)
   \<and> first_resolved ns ((applies, Some k) # rest) = first_resolved ns rest
   \<and> (r_next result \<in> {None, Some k} \<and> cfg_next (config_of cur) = Some f \<and> f \<noteq> []
        \<and> nodes_get ns f = Some m
        \<longrightarrow> getNextNode ns cur result = Some m)
   \<and> (r_next result \<in> {None, Some k} \<and> cfg_next (config_of cur) \<in> {None, Some k}
        \<and> conf_ge (r_confidence result) (7/10)
        \<and> next_high_confidence (config_of cur) = Some f \<and> f \<noteq> [] \<and> nodes_get ns f = Some m
        \<longrightarrow> getNextNode ns cur result = Some m)
   \<and> (r_next result \<in> {None, Some k} \<and> cfg_next (config_of cur) \<in> {None, Some k}
        \<and> next_high_confidence (config_of cur) \<in> {None, Some k}
        \<and> conf_lt (r_confidence result) (7/10)
        \<and> next_low_confidence (config_of cur) = Some f \<and> f \<noteq> [] \<and> nodes_get ns f = Some m
        \<longrightarrow> getNextNode ns cur result = Some m)
   \<and> (r_next result \<in> {None, Some k} \<and> cfg_next (config_of cur) \<in> {None, Some k}
        \<and> next_high_confidence (config_of cur) \<in> {None, Some k}
        \<and> next_low_confidence (config_of cur) \<in> {None, Some k}
        \<and> r_found result = Some True
        \<and> next_found (config_of cur) = Some f \<and> f \<noteq> [] \<and> nodes_get ns f = Some m
        \<longrightarrow> getNextNode ns cur result = Some m)
   \<and> (r_next result \<in> {None, Some k} \<and> cfg_next (config_of cur) \<in> {None, Some k}
        \<and> next_high_confidence (config_of cur) \<in> {None, Some k}
        \<and> next_low_confidence (config_of cur) \<in> {None, Some k}
        \<and> next_found (config_of cur) \<in> {None, Some k}
        \<and> r_found result \<noteq> Some True
        \<and> next_not_found (config_of cur) = Some f \<and> f \<noteq> [] \<and> nodes_get ns f = Some m
        \<longrightarrow> getNextNode ns cur result = Some m)
   \<and> (r_next result \<in> {None, Some k} \<and> cfg_next (config_of cur) \<in> {None, Some k}
        \<and> next_high_confidence (config_of cur) \<in> {None, Some k}
        \<and> next_low_confidence (config_of cur) \<in> {None, Some k}
        \<and> next_found (config_of cur) \<in> {None, Some k}
        \<and> next_not_found (config_of cur) \<in> {None, Some k}
        \<and> fallback (config_of cur) = Some f \<and> f \<noteq> [] \<and> nodes_get ns f = Some m
        \<longrightarrow> getNextNode ns cur result = Some m)
   \<and> (r_next result \<in> {None, Some k} \<and> cfg_next (config_of cur) \<in> {None, Some k}
        \<and> next_high_confidence (config_of cur) \<in> {None, Some k}
        \<and> next_low_confidence (config_of cur) \<in> {None, Some k}
        \<and> next_found (config_of cur) \<in> {None, Some k}
        \<and> next_not_found (config_of cur) \<in> {None, Some k}
        \<and> fallback (config_of cur) \<in> {None, Some k}
        \<longrightarrow> getNextNode ns cur result = nodes_get ns ''end'')
   \<and> (r_next result = None \<and> n_config cur = Some (empty_config\<lparr>cfg_next := Some k\<rparr>)
        \<longrightarrow> getNextNode ns cur result = nodes_get ns ''end'')
   \<and> (ns = nodes E \<and> running s = Some cur
        \<and> iterationCount (executionContext s) < maxIterations (executionContext s)
        \<and> visits (n_id cur) (workflowSteps (executionContext s)) \<le> 3
        \<and> executeNode E cur (bump (executionContext s)) = Inr (r, cx)
        \<and> \<not> truthy (r_error r) \<and> r_next r \<in> {None, Some k}
        \<and> n_config cur = Some (empty_config\<lparr>cfg_next := Some k\<rparr>)
        \<and> (\<forall>e. nodes_get ns ''end'' = Some e \<longrightarrow> n_type e = ''end'')
        \<longrightarrow> currentNode (run_loop E s) = nodes_get ns ''end''
            \<and> errors (executionContext (run_loop E s)) = errors (executionContext s)
            \<and> dispatched (run_loop E s) = dispatched s @ [Returned cur r])
   \<and> (ns = nodes E \<and> nodes_get ns ''start'' = Some cur \<and> n_type cur = ''trigger''
        \<and> n_config cur = Some (empty_config\<lparr>cfg_next := Some k\<rparr>)
        \<and> (\<forall>e. nodes_get ns ''end'' = Some e \<longrightarrow> n_type e = ''end'')
        \<longrightarrow> errors (execute E c) = [] \<and> currentNode (run E c) = nodes_get ns ''end''
            \<and> map target_of (dispatched (run E c)) = [n_id cur])"
proof (intro conjI impI)
  assume h: "ns = nodes E \<and> nodes_get ns ''start'' = Some cur \<and> n_type cur = ''trigger''
        \<and> n_config cur = Some (empty_config\<lparr>cfg_next := Some k\<rparr>)
        \<and> (\<forall>e. nodes_get ns ''end'' = Some e \<longrightarrow> n_type e = ''end'')"
  have nx: "getNextNode (nodes E) cur (handleTrigger cur (bump (executionContext (initial_state E c))))
              = nodes_get (nodes E) ''end''"
    using only_next_unresolved[of "nodes E" k _ cur] assms h
    by (simp add: handleTrigger_def result_of_def)
  from h have st: "nodes_get (nodes E) ''start'' = Some cur" and ty: "n_type cur = ''trigger''"
    and en: "\<forall>e. nodes_get (nodes E) ''end'' = Some e \<longrightarrow> n_type e = ''end''"
    and ns: "ns = nodes E"
    by auto
  note r = run_single_trigger[OF st ty nx en]
  from r show "errors (execute E c) = []" by simp
  from r ns show "currentNode (run E c) = nodes_get ns ''end''" by simp
  from r show "map target_of (dispatched (run E c)) = [n_id cur]" by simp
next
  assume g: "ns = nodes E \<and> running s = Some cur
        \<and> iterationCount (executionContext s) < maxIterations (executionContext s)
        \<and> visits (n_id cur) (workflowSteps (executionContext s)) \<le> 3
        \<and> executeNode E cur (bump (executionContext s)) = Inr (r, cx)
        \<and> \<not> truthy (r_error r) \<and> r_next r \<in> {None, Some k}
        \<and> n_config cur = Some (empty_config\<lparr>cfg_next := Some k\<rparr>)
        \<and> (\<forall>e. nodes_get ns ''end'' = Some e \<longrightarrow> n_type e = ''end'')"
  then have ns: "ns = nodes E" by simp
  have nk: "nodes_get (nodes E) k = None" using assms ns by simp
  have cf: "config_of cur = empty_config\<lparr>cfg_next := Some k\<rparr>"
    using g by (simp add: config_of_def)
  have rn: "r_next r \<in> {None, Some k}" using g by blast
  have nx: "getNextNode (nodes E) cur r = nodes_get (nodes E) ''end''"
    using rn
    by (simp add: getNextNode_in_order priority_chain_def cf empty_config_def
        first_resolved_absent[where k = k and ns = "nodes E", OF _ nk] first_resolved_off
        del: first_resolved.simps(2))
  from g have r0: "running s = Some cur"
    and i0: "iterationCount (executionContext s) < maxIterations (executionContext s)"
    and v0: "visits (n_id cur) (workflowSteps (executionContext s)) \<le> 3"
    and ex: "executeNode E cur (bump (executionContext s)) = Inr (r, cx)"
    and ne: "\<not> truthy (r_error r)"
    and en: "\<forall>e. nodes_get (nodes E) ''end'' = Some e \<longrightarrow> n_type e = ''end''"
    by auto
  note p = pass_to_end[OF r0 i0 v0 ex ne nx en]
  from p ns show "currentNode (run_loop E s) = nodes_get ns ''end''" by simp
  from p show "errors (executionContext (run_loop E s)) = errors (executionContext s)" by simp
  from p show "dispatched (run_loop E s) = dispatched s @ [Returned cur r]" by simp
next
  show "getNextNode ns cur result = first_resolved ns (priority_chain cur result)"
    by (rule getNextNode_in_order)
next
  show "first_resolved ns ((applies, Some k) # rest) = first_resolved ns rest"
    using assms by simp
next
  note ab = first_resolved_absent[where k = k and ns = ns, OF _ assms]
  note rw = getNextNode_in_order priority_chain_def ab first_resolved_hit first_resolved_off
  {
    assume "r_next result \<in> {None, Some k} \<and> cfg_next (config_of cur) = Some f \<and> f \<noteq> []
        \<and> nodes_get ns f = Some m"
    then show "getNextNode ns cur result = Some m"
      by (simp add: rw del: first_resolved.simps(2))
  next
    assume "r_next result \<in> {None, Some k} \<and> cfg_next (config_of cur) \<in> {None, Some k}
        \<and> conf_ge (r_confidence result) (7/10)
        \<and> next_high_confidence (config_of cur) = Some f \<and> f \<noteq> [] \<and> nodes_get ns f = Some m"
    then show "getNextNode ns cur result = Some m"
      by (simp add: rw del: first_resolved.simps(2))
  next
    assume "r_next result \<in> {None, Some k} \<and> cfg_next (config_of cur) \<in> {None, Some k}
        \<and> next_high_confidence (config_of cur) \<in> {None, Some k}
        \<and> conf_lt (r_confidence result) (7/10)
        \<and> next_low_confidence (config_of cur) = Some f \<and> f \<noteq> [] \<and> nodes_get ns f = Some m"
    then show "getNextNode ns cur result = Some m"
      by (simp add: rw del: first_resolved.simps(2))
  next
    assume "r_next result \<in> {None, Some k} \<and> cfg_next (config_of cur) \<in> {None, Some k}
        \<and> next_high_confidence (config_of cur) \<in> {None, Some k}
        \<and> next_low_confidence (config_of cur) \<in> {None, Some k}
        \<and> r_found result = Some True
        \<and> next_found (config_of cur) = Some f \<and> f \<noteq> [] \<and> nodes_get ns f = Some m"
    then show "getNextNode ns cur result = Some m"
      by (simp add: rw is_true_def del: first_resolved.simps(2))
  next
    assume "r_next result \<in> {None, Some k} \<and> cfg_next (config_of cur) \<in> {None, Some k}
        \<and> next_high_confidence (config_of cur) \<in> {None, Some k}
        \<and> next_low_confidence (config_of cur) \<in> {None, Some k}
        \<and> next_found (config_of cur) \<in> {None, Some k}
        \<and> r_found result \<noteq> Some True
        \<and> next_not_found (config_of cur) = Some f \<and> f \<noteq> [] \<and> nodes_get ns f = Some m"
    then show "getNextNode ns cur result = Some m"
      by (simp add: rw is_true_def del: first_resolved.simps(2))
  next
    assume "r_next result \<in> {None, Some k} \<and> cfg_next (config_of cur) \<in> {None, Some k}
        \<and> next_high_confidence (config_of cur) \<in> {None, Some k}
        \<and> next_low_confidence (config_of cur) \<in> {None, Some k}
        \<and> next_found (config_of cur) \<in> {None, Some k}
        \<and> next_not_found (config_of cur) \<in> {None, Some k}
        \<and> fallback (config_of cur) = Some f \<and> f \<noteq> [] \<and> nodes_get ns f = Some m"
    then show "getNextNode ns cur result = Some m"
      by (simp add: rw del: first_resolved.simps(2))
  next
    assume "r_next result \<in> {None, Some k} \<and> cfg_next (config_of cur) \<in> {None, Some k}
        \<and> next_high_confidence (config_of cur) \<in> {None, Some k}
        \<and> next_low_confidence (config_of cur) \<in> {None, Some k}
        \<and> next_found (config_of cur) \<in> {None, Some k}
        \<and> next_not_found (config_of cur) \<in> {None, Some k}
        \<and> fallback (config_of cur) \<in> {None, Some k}"
    then show "getNextNode ns cur result = nodes_get ns ''end''"
      by (simp add: rw del: first_resolved.simps(2))
  next
    assume "r_next result = None \<and> n_config cur = Some (empty_config\<lparr>cfg_next := Some k\<rparr>)"
    then show "getNextNode ns cur result = nodes_get ns ''end''"
      using only_next_unresolved[OF assms, of result cur] by simp
  }
qed (use assms in \<open>simp_all add: getNextNode_def Let_def config_of_def route_to_simps
      empty_config_def cong: option.case_cong\<close>)

text \<open>
  C7 on a start node whose \<open>next\<close> and \<open>next_found\<close> name a node that does not exist
  and whose \<open>fallback\<close> names one that does, and on a run from a start node whose only
  routing field is a dangling \<open>next\<close>.
\<close>

theorem unresolvable_references_are_skipped_witness:
  "getNextNode clarifying (graph_node ''start'' ''trigger''
        (empty_config\<lparr>cfg_next := Some ''nowhere'', next_found := Some ''nowhere'',
                        fallback := Some ''clarify''\<rparr>))
      (routed (Some ''nowhere'') None)
     = Some (graph_node ''clarify'' ''handler'' empty_config)
   \<and> getNextNode clarifying (graph_node ''start'' ''database''
        (empty_config\<lparr>cfg_next := Some ''nowhere'', next_found := Some ''clarify''\<rparr>))
      (found_result empty_data True)
     = Some (graph_node ''clarify'' ''handler'' empty_config)
   \<and> getNextNode clarifying (graph_node ''start'' ''trigger''
        (empty_config\<lparr>cfg_next := Some ''nowhere'', fallback := Some ''nowhere''\<rparr>))
      (routed (Some ''nowhere'') None)
     = Some (graph_node ''end'' ''end'' empty_config)
   \<and> errors (execute (offline dangling) (text_message ''hi'')) = []
   \<and> currentNode (run (offline dangling) (text_message ''hi''))
       = Some (graph_node ''end'' ''end'' empty_config)
   \<and> map target_of (dispatched (run (offline dangling) (text_message ''hi''))) = [''start'']
   \<and> currentNode (run_loop (offline dangling)
         (initial_state (offline dangling) (text_message ''hi'')))
       = Some (graph_node ''end'' ''end'' empty_config)"
proof -
  let ?m = "graph_node ''clarify'' ''handler'' empty_config"
  let ?e = "graph_node ''end'' ''end'' empty_config"
  have k: "nodes_get clarifying ''nowhere'' = None"
    by (simp add: clarifying_def nodes_get_def graph_node_def)
  have cm: "nodes_get clarifying ''clarify'' = Some ?m"
    by (simp add: clarifying_def nodes_get_def graph_node_def)
  have ce: "nodes_get clarifying ''end'' = Some ?e"
    by (simp add: clarifying_def nodes_get_def graph_node_def)
  \<comment> \<open>the fallback after a dangling explicit next, next and next_found\<close>
  let ?c1 = "graph_node ''start'' ''trigger''
        (empty_config\<lparr>cfg_next := Some ''nowhere'', next_found := Some ''nowhere'',
                        fallback := Some ''clarify''\<rparr>)"
  let ?r1 = "routed (Some ''nowhere'') None"
  have h1: "r_next ?r1 \<in> {None, Some ''nowhere''}
        \<and> cfg_next (config_of ?c1) \<in> {None, Some ''nowhere''}
        \<and> next_high_confidence (config_of ?c1) \<in> {None, Some ''nowhere''}
        \<and> next_low_confidence (config_of ?c1) \<in> {None, Some ''nowhere''}
        \<and> next_found (config_of ?c1) \<in> {None, Some ''nowhere''}
        \<and> next_not_found (config_of ?c1) \<in> {None, Some ''nowhere''}
        \<and> fallback (config_of ?c1) = Some ''clarify'' \<and> ''clarify'' \<noteq> []
        \<and> nodes_get clarifying ''clarify'' = Some ?m"
    by (simp add: routed_def config_of_def graph_node_def empty_config_def cm)
  from unresolvable_references_are_skipped[OF k, where cur = ?c1 and result = ?r1
        and f = "''clarify''" and m = ?m and cf = empty_config and applies = True and rest = "[]"
        and E = "offline dangling" and s = "initial_state (offline dangling) (text_message ''hi'')"
        and r = "routed None None" and cx = "text_message ''hi''" and c = "text_message ''hi''"]
  have "r_next ?r1 \<in> {None, Some ''nowhere''}
        \<and> cfg_next (config_of ?c1) \<in> {None, Some ''nowhere''}
        \<and> next_high_confidence (config_of ?c1) \<in> {None, Some ''nowhere''}
        \<and> next_low_confidence (config_of ?c1) \<in> {None, Some ''nowhere''}
        \<and> next_found (config_of ?c1) \<in> {None, Some ''nowhere''}
        \<and> next_not_found (config_of ?c1) \<in> {None, Some ''nowhere''}
        \<and> fallback (config_of ?c1) = Some ''clarify'' \<and> ''clarify'' \<noteq> []
        \<and> nodes_get clarifying ''clarify'' = Some ?m
      \<longrightarrow> getNextNode clarifying ?c1 ?r1 = Some ?m"
    by - (elim conjE, assumption)
  from this h1 have a1: "getNextNode clarifying ?c1 ?r1 = Some ?m" by (rule mp)
  \<comment> \<open>next_found after a dangling next\<close>
  let ?c2 = "graph_node ''start'' ''database''
        (empty_config\<lparr>cfg_next := Some ''nowhere'', next_found := Some ''clarify''\<rparr>)"
  let ?r2 = "found_result empty_data True"
  have h2: "r_next ?r2 \<in> {None, Some ''nowhere''}
        \<and> cfg_next (config_of ?c2) \<in> {None, Some ''nowhere''}
        \<and> next_high_confidence (config_of ?c2) \<in> {None, Some ''nowhere''}
        \<and> next_low_confidence (config_of ?c2) \<in> {None, Some ''nowhere''}
        \<and> r_found ?r2 = Some True
        \<and> next_found (config_of ?c2) = Some ''clarify'' \<and> ''clarify'' \<noteq> []
        \<and> nodes_get clarifying ''clarify'' = Some ?m"
    by (simp add: found_result_def result_of_def config_of_def graph_node_def empty_config_def cm)
  from unresolvable_references_are_skipped[OF k, where cur = ?c2 and result = ?r2
        and f = "''clarify''" and m = ?m and cf = empty_config and applies = True and rest = "[]"
        and E = "offline dangling" and s = "initial_state (offline dangling) (text_message ''hi'')"
        and r = "routed None None" and cx = "text_message ''hi''" and c = "text_message ''hi''"]
  have "r_next ?r2 \<in> {None, Some ''nowhere''}
        \<and> cfg_next (config_of ?c2) \<in> {None, Some ''nowhere''}
        \<and> next_high_confidence (config_of ?c2) \<in> {None, Some ''nowhere''}
        \<and> next_low_confidence (config_of ?c2) \<in> {None, Some ''nowhere''}
        \<and> r_found ?r2 = Some True
        \<and> next_found (config_of ?c2) = Some ''clarify'' \<and> ''clarify'' \<noteq> []
        \<and> nodes_get clarifying ''clarify'' = Some ?m
      \<longrightarrow> getNextNode clarifying ?c2 ?r2 = Some ?m"
    by - (elim conjE, assumption)
  from this h2 have a2: "getNextNode clarifying ?c2 ?r2 = Some ?m" by (rule mp)
  \<comment> \<open>the end node when every reference dangles\<close>
  let ?c3 = "graph_node ''start'' ''trigger''
        (empty_config\<lparr>cfg_next := Some ''nowhere'', fallback := Some ''nowhere''\<rparr>)"
  have h3: "r_next ?r1 \<in> {None, Some ''nowhere''}
        \<and> cfg_next (config_of ?c3) \<in> {None, Some ''nowhere''}
        \<and> next_high_confidence (config_of ?c3) \<in> {None, Some ''nowhere''}
        \<and> next_low_confidence (config_of ?c3) \<in> {None, Some ''nowhere''}
        \<and> next_found (config_of ?c3) \<in> {None, Some ''nowhere''}
        \<and> next_not_found (config_of ?c3) \<in> {None, Some ''nowhere''}
        \<and> fallback (config_of ?c3) \<in> {None, Some ''nowhere''}"
    by (simp add: routed_def config_of_def graph_node_def empty_config_def)
  from unresolvable_references_are_skipped[OF k, where cur = ?c3 and result = ?r1
        and f = "''clarify''" and m = ?m and cf = empty_config and applies = True and rest = "[]"
        and E = "offline dangling" and s = "initial_state (offline dangling) (text_message ''hi'')"
        and r = "routed None None" and cx = "text_message ''hi''" and c = "text_message ''hi''"]
  have "r_next ?r1 \<in> {None, Some ''nowhere''}
        \<and> cfg_next (config_of ?c3) \<in> {None, Some ''nowhere''}
        \<and> next_high_confidence (config_of ?c3) \<in> {None, Some ''nowhere''}
        \<and> next_low_confidence (config_of ?c3) \<in> {None, Some ''nowhere''}
        \<and> next_found (config_of ?c3) \<in> {None, Some ''nowhere''}
        \<and> next_not_found (config_of ?c3) \<in> {None, Some ''nowhere''}
        \<and> fallback (config_of ?c3) \<in> {None, Some ''nowhere''}
      \<longrightarrow> getNextNode clarifying ?c3 ?r1 = nodes_get clarifying ''end''"
    by - (elim conjE, assumption)
  from this h3 have "getNextNode clarifying ?c3 ?r1 = nodes_get clarifying ''end''" by (rule mp)
  then have a3: "getNextNode clarifying ?c3 ?r1 = Some ?e" by (simp add: ce)
  \<comment> \<open>a run that starts at a node whose only routing field dangles\<close>
  let ?cur = "graph_node ''start'' ''trigger'' (empty_config\<lparr>cfg_next := Some ''nowhere''\<rparr>)"
  have kd: "nodes_get dangling ''nowhere'' = None"
    by (simp add: dangling_def nodes_get_def graph_node_def)
  have h: "dangling = nodes (offline dangling) \<and> nodes_get dangling ''start'' = Some ?cur
        \<and> n_type ?cur = ''trigger''
        \<and> n_config ?cur = Some (empty_config\<lparr>cfg_next := Some ''nowhere''\<rparr>)
        \<and> (\<forall>e. nodes_get dangling ''end'' = Some e \<longrightarrow> n_type e = ''end'')"
    by (simp add: dangling_def nodes_get_def graph_node_def offline_def)
  have e: "nodes_get dangling ''end'' = Some ?e"
    by (simp add: dangling_def nodes_get_def graph_node_def)
  have i: "n_id ?cur = ''start''" by (simp add: graph_node_def)
  from unresolvable_references_are_skipped[OF kd, where cur = ?cur and E = "offline dangling"
      and c = "text_message ''hi''" and result = "routed None None" and f = "''clarify''"
      and m = ?m and cf = empty_config and applies = True and rest = "[]"
      and s = "initial_state (offline dangling) (text_message ''hi'')"
      and r = "routed None None" and cx = "text_message ''hi''"]
  have "dangling = nodes (offline dangling) \<and> nodes_get dangling ''start'' = Some ?cur
        \<and> n_type ?cur = ''trigger''
        \<and> n_config ?cur = Some (empty_config\<lparr>cfg_next := Some ''nowhere''\<rparr>)
        \<and> (\<forall>e. nodes_get dangling ''end'' = Some e \<longrightarrow> n_type e = ''end'')
      \<longrightarrow> errors (execute (offline dangling) (text_message ''hi'')) = []
      \<and> currentNode (run (offline dangling) (text_message ''hi'')) = nodes_get dangling ''end''
      \<and> map target_of (dispatched (run (offline dangling) (text_message ''hi''))) = [n_id ?cur]"
    by - (elim conjE, assumption)
  from this h have "errors (execute (offline dangling) (text_message ''hi'')) = []
      \<and> currentNode (run (offline dangling) (text_message ''hi'')) = nodes_get dangling ''end''
      \<and> map target_of (dispatched (run (offline dangling) (text_message ''hi''))) = [n_id ?cur]"
    by (rule mp)
  then have a4: "errors (execute (offline dangling) (text_message ''hi'')) = []
      \<and> currentNode (run (offline dangling) (text_message ''hi'')) = Some ?e
      \<and> map target_of (dispatched (run (offline dangling) (text_message ''hi''))) = [''start'']"
    by (simp add: e i)
  \<comment> \<open>the same run as one pass from its initial state\<close>
  let ?s = "initial_state (offline dangling) (text_message ''hi'')"
  let ?r = "handleTrigger ?cur (bump (executionContext ?s))"
  have g: "dangling = nodes (offline dangling) \<and> running ?s = Some ?cur
        \<and> iterationCount (executionContext ?s) < maxIterations (executionContext ?s)
        \<and> visits (n_id ?cur) (workflowSteps (executionContext ?s)) \<le> 3
        \<and> executeNode (offline dangling) ?cur (bump (executionContext ?s))
            = Inr (?r, bump (executionContext ?s))
        \<and> \<not> truthy (r_error ?r) \<and> r_next ?r \<in> {None, Some ''nowhere''}
        \<and> n_config ?cur = Some (empty_config\<lparr>cfg_next := Some ''nowhere''\<rparr>)
        \<and> (\<forall>e. nodes_get dangling ''end'' = Some e \<longrightarrow> n_type e = ''end'')"
    by (simp add: dangling_def nodes_get_def graph_node_def offline_def running_def
        initial_state_def visits_def executeNode_def handleTrigger_def result_of_def truthy_def)
  from unresolvable_references_are_skipped[OF kd, where cur = ?cur and E = "offline dangling"
      and c = "text_message ''hi''" and result = "routed None None" and f = "''clarify''"
      and m = ?m and cf = empty_config and applies = True and rest = "[]"
      and s = ?s and r = ?r and cx = "bump (executionContext ?s)"]
  have "dangling = nodes (offline dangling) \<and> running ?s = Some ?cur
        \<and> iterationCount (executionContext ?s) < maxIterations (executionContext ?s)
        \<and> visits (n_id ?cur) (workflowSteps (executionContext ?s)) \<le> 3
        \<and> executeNode (offline dangling) ?cur (bump (executionContext ?s))
            = Inr (?r, bump (executionContext ?s))
        \<and> \<not> truthy (r_error ?r) \<and> r_next ?r \<in> {None, Some ''nowhere''}
        \<and> n_config ?cur = Some (empty_config\<lparr>cfg_next := Some ''nowhere''\<rparr>)
        \<and> (\<forall>e. nodes_get dangling ''end'' = Some e \<longrightarrow> n_type e = ''end'')
      \<longrightarrow> currentNode (run_loop (offline dangling) ?s) = nodes_get dangling ''end''
            \<and> errors (executionContext (run_loop (offline dangling) ?s))
                = errors (executionContext ?s)
            \<and> dispatched (run_loop (offline dangling) ?s) = dispatched ?s @ [Returned ?cur ?r]"
    by - (elim conjE, assumption)
  from this g have "currentNode (run_loop (offline dangling) ?s) = nodes_get dangling ''end''
            \<and> errors (executionContext (run_loop (offline dangling) ?s))
                = errors (executionContext ?s)
            \<and> dispatched (run_loop (offline dangling) ?s) = dispatched ?s @ [Returned ?cur ?r]"
    by (rule mp)
  then have a5: "currentNode (run_loop (offline dangling) ?s) = Some ?e" by (simp add: e)
  from a1 a2 a3 a4 a5 show ?thesis by simp
qed


section \<open>The ranking fallback\<close>

lemma slice0_take: "0 \<le> k \<Longrightarrow> slice0 k xs = take (nat k) xs"
  by (simp add: slice0_def)

text \<open>
  The recommender under a failing ranking call: the fallback scores every candidate 0.5,
  below the relevance threshold 0.6 of \<open>recommend\<close>, so none is kept.
\<close>

lemma recommend_on_failure:
  assumes "search_products E q ctx = Inr ps" and "ps \<noteq> []"
    and "recommender_completion E q ps ctx = Inl e"
  shows "recommend E (Some q) ctx
     = Inr \<lparr>rec_products = [], rec_confidence = 1/2, rec_reasoning = none_relevant,
            rec_fallbackProducts = Some (map by_popularity (take 3 ps))\<rparr>"
proof -
  have rk: "rankProducts E q ps ctx = rank_fallback ps"
    using assms(2,3) by (simp add: rankProducts_def)
  have fl: "filter (\<lambda>p. conf_ge (relevance_score p) (6/10)) (rk_products (rank_fallback ps)) = []"
    by (simp add: rank_fallback_def conf_ge_def filter_empty_conv)
  have tk: "take 3 (rk_products (rank_fallback ps)) = map by_popularity (take 3 ps)"
    by (simp add: rank_fallback_def by_popularity_def)
  have cf: "rk_confidence (rank_fallback ps) = 1/2"
    by (simp add: rank_fallback_def)
  show ?thesis
    using assms(1,2) fl
    by (simp add: recommend_def Let_def rk tk cf none_relevant_def)
qed

text \<open>
  C8, against the claim as stated: on the \<open>product_recommender\<close> node, with two candidates
  found and the ranking call failing, the ml step returns an empty \<open>products\<close> list; the
  candidates are only under \<open>fallbackProducts\<close>, and the reasoning is not the fallback
  diagnostic.
\<close>

theorem ranking_failure_counterexample:
  "search_products (stocked [bike ''1'', bike ''2''] [recommender]) ''a cheap bike''
       (text_message ''a cheap bike'') = Inr [bike ''1'', bike ''2'']
   \<and> recommender_completion (stocked [bike ''1'', bike ''2''] [recommender]) ''a cheap bike''
       [bike ''1'', bike ''2''] (text_message ''a cheap bike'')
       = Inl (ServiceError ''service unavailable'')
   \<and> handleML (stocked [bike ''1'', bike ''2''] [recommender]) recommender
       (text_message ''a cheap bike'')
     = Inr \<lparr>r_data = Some (empty_data\<lparr>d_products := Some [],
               d_reasoning := Some none_relevant,
               d_fallbackProducts := Some [by_popularity (bike ''1''), by_popularity (bike ''2'')]\<rparr>),
            r_next = None, r_confidence = Some (1/2), r_found = None, r_tokensUsed = 0,
            r_error = None\<rparr>"
  by code_simp

text \<open>
  C8, as amended: on a ranker node (\<open>bike_ranker\<close> or \<open>product_ranker\<close>) with a non-empty
  candidate list, when the guarded block around the ranking call throws (the call fails or its
  payload does not parse), \<open>handleML\<close> returns a result and no exception: the candidates in
  their stored order cut to \<open>top_n || 5\<close>, confidence exactly 0.5, the reasoning
  \<open>Fallback ranking by popularity\<close>, and no \<open>error\<close>. \<open>rankProducts\<close> of the
  recommender falls back in the same way, with the cut fixed at three and every candidate
  scored 0.5. On the \<open>product_recommender\<close> node the step still returns a result with
  confidence 0.5 and no \<open>error\<close>, but its \<open>products\<close> list is empty: the first three
  candidates, in their stored order, are under \<open>fallbackProducts\<close>, and the reasoning says
  that no product is highly relevant.
\<close>

theorem ranking_failure_falls_back:
  "((n_id n = ''bike_ranker'' \<or> n_id n = ''product_ranker'') \<and> n_config n = Some cf
      \<and> last_field ctx d_products = Some ps \<and> ps \<noteq> [] \<and> rank_completion E n ctx = Inl e
     \<longrightarrow> (\<exists>d. handleML E n ctx
                 = Inr \<lparr>r_data = Some d, r_next = None, r_confidence = Some (1/2),
                        r_found = None, r_tokensUsed = 0, r_error = None\<rparr>
              \<and> d_products d = Some (slice0 (int_or (top_n cf) 5) ps)
              \<and> d_reasoning d = Some ''Fallback ranking by popularity'')
         \<and> (0 \<le> int_or (top_n cf) 5
              \<longrightarrow> slice0 (int_or (top_n cf) 5) ps = take (nat (int_or (top_n cf) 5)) ps))
   \<and> (ps \<noteq> [] \<and> recommender_completion E q ps ctx = Inl e
     \<longrightarrow> rankProducts E q ps ctx
          = \<lparr>rk_products = map (\<lambda>p. p\<lparr>relevance_score := Some (1/2),
                                       p_reasoning := Some ''Fallback ranking by popularity''\<rparr>)
                              (take 3 ps),
             rk_confidence = 1/2, rk_reasoning = ''Used fallback ranking method'',
             rk_tokensUsed = Some 0\<rparr>)
   \<and> (n_id n = ''product_recommender'' \<and> user_message ctx = Some q
        \<and> search_products E q ctx = Inr ps \<and> ps \<noteq> []
        \<and> recommender_completion E q ps ctx = Inl e
     \<longrightarrow> handleML E n ctx
          = Inr \<lparr>r_data = Some (empty_data\<lparr>d_products := Some [],
                    d_reasoning := Some none_relevant,
                    d_fallbackProducts := Some (map by_popularity (take 3 ps))\<rparr>),
                 r_next = None, r_confidence = Some (1/2), r_found = None, r_tokensUsed = 0,
                 r_error = None\<rparr>)"
proof (intro conjI impI)
  assume h: "(n_id n = ''bike_ranker'' \<or> n_id n = ''product_ranker'') \<and> n_config n = Some cf
      \<and> last_field ctx d_products = Some ps \<and> ps \<noteq> [] \<and> rank_completion E n ctx = Inl e"
  then have "handleML E n ctx = Inr (ml_fallback cf ps)"
    by (auto simp: handleML_def Let_def config_read_def)
  then show "\<exists>d. handleML E n ctx
                 = Inr \<lparr>r_data = Some d, r_next = None, r_confidence = Some (1/2),
                        r_found = None, r_tokensUsed = 0, r_error = None\<rparr>
              \<and> d_products d = Some (slice0 (int_or (top_n cf) 5) ps)
              \<and> d_reasoning d = Some ''Fallback ranking by popularity''"
    by (simp add: ml_fallback_def)
next
  assume "0 \<le> int_or (top_n cf) 5"
  then show "slice0 (int_or (top_n cf) 5) ps = take (nat (int_or (top_n cf) 5)) ps"
    by (rule slice0_take)
next
  assume "ps \<noteq> [] \<and> recommender_completion E q ps ctx = Inl e"
  then show "rankProducts E q ps ctx
          = \<lparr>rk_products = map (\<lambda>p. p\<lparr>relevance_score := Some (1/2),
                                       p_reasoning := Some ''Fallback ranking by popularity''\<rparr>)
                              (take 3 ps),
             rk_confidence = 1/2, rk_reasoning = ''Used fallback ranking method'',
             rk_tokensUsed = Some 0\<rparr>"
    by (simp add: rankProducts_def rank_fallback_def)
next
  assume h: "n_id n = ''product_recommender'' \<and> user_message ctx = Some q
        \<and> search_products E q ctx = Inr ps \<and> ps \<noteq> []
        \<and> recommender_completion E q ps ctx = Inl e"
  then have "recommend E (user_message ctx) ctx
     = Inr \<lparr>rec_products = [], rec_confidence = 1/2, rec_reasoning = none_relevant,
            rec_fallbackProducts = Some (map by_popularity (take 3 ps))\<rparr>"
    using recommend_on_failure[of E q ctx ps e] by simp
  with h show "handleML E n ctx
          = Inr \<lparr>r_data = Some (empty_data\<lparr>d_products := Some [],
                    d_reasoning := Some none_relevant,
                    d_fallbackProducts := Some (map by_popularity (take 3 ps))\<rparr>),
                 r_next = None, r_confidence = Some (1/2), r_found = None, r_tokensUsed = 0,
                 r_error = None\<rparr>"
    by (simp add: handleML_def Let_def)
qed

text \<open>
  The amended C8 on three candidates with \<open>top_n = 2\<close>, on four candidates in
  \<open>rankProducts\<close>, and on four candidates at the recommender node.
\<close>

theorem ranking_failure_falls_back_witness:
  "(\<exists>d. handleML (offline [ranker]) ranker (after_search [bike ''1'', bike ''2'', bike ''3''])
           = Inr \<lparr>r_data = Some d, r_next = None, r_confidence = Some (1/2),
                  r_found = None, r_tokensUsed = 0, r_error = None\<rparr>
        \<and> d_products d = Some [bike ''1'', bike ''2'']
        \<and> d_reasoning d = Some ''Fallback ranking by popularity'')
   \<and> rk_confidence (rankProducts (offline [ranker]) ''a cheap bike''
         [bike ''1'', bike ''2'', bike ''3'', bike ''4'']
         (after_search [])) = 1/2
   \<and> map p_id (rk_products (rankProducts (offline [ranker]) ''a cheap bike''
         [bike ''1'', bike ''2'', bike ''3'', bike ''4'']
         (after_search []))) = [''1'', ''2'', ''3'']
   \<and> handleML (stocked [bike ''1'', bike ''2'', bike ''3'', bike ''4''] [recommender]) recommender
         (text_message ''a cheap bike'')
       = Inr \<lparr>r_data = Some (empty_data\<lparr>d_products := Some [],
                 d_reasoning := Some none_relevant,
                 d_fallbackProducts :=
                   Some [by_popularity (bike ''1''), by_popularity (bike ''2''),
                         by_popularity (bike ''3'')]\<rparr>),
              r_next = None, r_confidence = Some (1/2), r_found = None, r_tokensUsed = 0,
              r_error = None\<rparr>"
proof -
  let ?E = "offline [ranker]"
  let ?ps = "[bike ''1'', bike ''2'', bike ''3'']"
  let ?qs = "[bike ''1'', bike ''2'', bike ''3'', bike ''4'']"
  let ?S = "stocked ?qs [recommender]"
  have h1: "(n_id ranker = ''bike_ranker'' \<or> n_id ranker = ''product_ranker'')
      \<and> n_config ranker = Some (empty_config\<lparr>top_n := Some 2\<rparr>)
      \<and> last_field (after_search ?ps) d_products = Some ?ps \<and> ?ps \<noteq> []
      \<and> rank_completion ?E ranker (after_search ?ps) = Inl (ServiceError ''service unavailable'')"
    by (simp add: ranker_def graph_node_def after_search_def last_field_def last_data_def
        found_result_def result_of_def offline_def)
  have h2: "?qs \<noteq> [] \<and> recommender_completion ?E ''a cheap bike'' ?qs (after_search [])
      = Inl (ServiceError ''service unavailable'')"
    by (simp add: offline_def)
  have h3: "n_id recommender = ''product_recommender''
      \<and> user_message (text_message ''a cheap bike'') = Some ''a cheap bike''
      \<and> search_products ?S ''a cheap bike'' (text_message ''a cheap bike'') = Inr ?qs
      \<and> ?qs \<noteq> []
      \<and> recommender_completion ?S ''a cheap bike'' ?qs (text_message ''a cheap bike'')
          = Inl (ServiceError ''service unavailable'')"
    by (simp add: recommender_def graph_node_def text_message_def stocked_def offline_def)
  note t = ranking_failure_falls_back[where n = ranker and cf = "empty_config\<lparr>top_n := Some 2\<rparr>"
      and ctx = "after_search ?ps" and ps = ?ps and E = ?E
      and e = "ServiceError ''service unavailable''"]
  note u = ranking_failure_falls_back[where E = ?E and q = "''a cheap bike''" and ps = ?qs
      and ctx = "after_search []" and e = "ServiceError ''service unavailable''"]
  note v = ranking_failure_falls_back[where E = ?S and n = recommender
      and q = "''a cheap bike''" and ps = ?qs and ctx = "text_message ''a cheap bike''"
      and e = "ServiceError ''service unavailable''"]
  have k: "slice0 (int_or (Some 2) 5) ?ps = [bike ''1'', bike ''2'']"
    by (simp add: slice0_def int_or_def)
  from t[THEN conjunct1, THEN mp, OF h1, THEN conjunct1]
  have a: "\<exists>d. handleML ?E ranker (after_search ?ps)
           = Inr \<lparr>r_data = Some d, r_next = None, r_confidence = Some (1/2),
                  r_found = None, r_tokensUsed = 0, r_error = None\<rparr>
        \<and> d_products d = Some [bike ''1'', bike ''2'']
        \<and> d_reasoning d = Some ''Fallback ranking by popularity''"
    by (simp add: k)
  from u[THEN conjunct2, THEN conjunct1, THEN mp, OF h2]
  have b: "rk_confidence (rankProducts ?E ''a cheap bike'' ?qs (after_search [])) = 1/2"
    and c: "map p_id (rk_products (rankProducts ?E ''a cheap bike'' ?qs (after_search [])))
        = [''1'', ''2'', ''3'']"
    by (simp_all add: bike_def)
  from v[THEN conjunct2, THEN conjunct2, THEN mp, OF h3]
  have d: "handleML ?S recommender (text_message ''a cheap bike'')
       = Inr \<lparr>r_data = Some (empty_data\<lparr>d_products := Some [],
                 d_reasoning := Some none_relevant,
                 d_fallbackProducts :=
                   Some [by_popularity (bike ''1''), by_popularity (bike ''2''),
                         by_popularity (bike ''3'')]\<rparr>),
              r_next = None, r_confidence = Some (1/2), r_found = None, r_tokensUsed = 0,
              r_error = None\<rparr>"
    by simp
  from a b c d show ?thesis by simp
qed


section \<open>Faults and escalation\<close>



text \<open>
  C1, on a failing input: the language service is down, the start node (nlp) fails and the run
  is routed to \<open>agent_escalation\<close>, whose \<open>next\<close> is a second nlp node
  (\<open>handoff_summary\<close>); that node fails too, and the run is routed to
  \<open>agent_escalation\<close> again, four times in all, until the repeated-visit guard ends the run.
\<close>

theorem escalates_after_every_fault:
  "map target_of (dispatched (run (offline handoff_graph) (text_message ''hi'')))
     = [''start'', ''agent_escalation'', ''handoff_summary'', ''agent_escalation'',
        ''handoff_summary'', ''agent_escalation'', ''handoff_summary'', ''agent_escalation'',
        ''handoff_summary'']"
  by code_simp




end
